theory Spec2Isabelle
  imports Complex_Main "HOL-Library.Sublist"
begin

section \<open>Tracking metrics in a custom training loop\<close>

text \<open>
  A model of the notebook
  \<^verbatim>\<open>customizing-your-models-with-Tensorflow2/007-READING-tracking-metrics-in-custom-training-loops.ipynb\<close>.
  The notebook's own code is the function \<^verbatim>\<open>grad\<close>, the epoch loop around it and the
  calls that prepare the data. Everything else is a call into Keras, TensorFlow or numpy;
  the code of those libraries is not part of the repository. A library function whose
  result a property depends on is written out below from its documented behaviour and
  marked as such; the others are parameters of the model.

  Tensors of floating point numbers are modelled by exact real numbers, so rounding,
  overflow and NaN are outside the model.
\<close>

subsection \<open>Errors\<close>

text \<open>
  Nothing in the notebook catches an exception: an error raised in a library call ends
  the cell. The errors that the modelled library functions raise:
\<close>

datatype error =
    ValueError              \<comment> \<open>Python's ValueError (Keras preprocessing, numpy broadcasting)\<close>
  | IndexError              \<comment> \<open>numpy's IndexError (\<^verbatim>\<open>to_categorical\<close> with a label out of range)\<close>
  | InvalidArgumentError    \<comment> \<open>TensorFlow's InvalidArgumentError (a failed assertion in an op)\<close>

subsection \<open>Padding and truncating the token sequences\<close>

text \<open>
  Cell 4 of the notebook:
  \<^verbatim>\<open>
  padded_train_data = pad_sequences(train_data, maxlen=100, truncating='post')
  padded_test_data = pad_sequences(test_data, maxlen=100, truncating='post')
  \<close>
  The function \<^verbatim>\<open>pad_sequences\<close> is Keras's
  (\<^verbatim>\<open>tensorflow.keras.preprocessing.sequence\<close>), called with the defaults
  \<^verbatim>\<open>padding='pre'\<close>, \<^verbatim>\<open>value=0.\<close> and \<^verbatim>\<open>dtype='int32'\<close>. Its loop over the sequences:
  \<^verbatim>\<open>
  x = np.full((num_samples, maxlen) + sample_shape, value, dtype=dtype)
  for idx, s in enumerate(sequences):
      if not len(s):
          continue  # empty list/array was found
      if truncating == 'pre':
          trunc = s[-maxlen:]
      elif truncating == 'post':
          trunc = s[:maxlen]
      else:
          raise ValueError('Truncating type "%s" not understood' % truncating)
      ...
      if padding == 'post':
          x[idx, :len(trunc)] = trunc
      elif padding == 'pre':
          x[idx, -len(trunc):] = trunc
      else:
          raise ValueError('Padding type "%s" not understood' % padding)
  return x
  \<close>
  A sequence is a list of token ids. The token ids of the Reuters data are below
  \<^verbatim>\<open>num_words=10000\<close>, so the conversion to \<^verbatim>\<open>int32\<close> changes none of them; it
  is not modelled. \<^verbatim>\<open>maxlen=None\<close> (take the longest sequence) is not modelled either:
  the notebook passes a number.
\<close>

text \<open>Python's slice \<^verbatim>\<open>s[-n:]\<close>; for \<open>n = 0\<close> it is \<^verbatim>\<open>s[0:]\<close>, the whole list.\<close>

definition slice_from_end :: "nat \<Rightarrow> 'a list \<Rightarrow> 'a list" where
  "slice_from_end n s = (if n = 0 then s else drop (length s - n) s)"

text \<open>
  Modelled from the spec: the truncation branch of the library function
  \<^verbatim>\<open>pad_sequences\<close>, which is not in the repository.
\<close>

definition truncate_seq :: "string \<Rightarrow> nat \<Rightarrow> 'a list \<Rightarrow> error + 'a list" where
  "truncate_seq truncating maxlen s =
     (if truncating = ''pre'' then Inr (slice_from_end maxlen s)
      else if truncating = ''post'' then Inr (take maxlen s)
      else Inl ValueError)"

text \<open>
  Modelled from the spec: the padding branch of the library function
  \<^verbatim>\<open>pad_sequences\<close>, which is not in the repository. The row starts as
  \<open>maxlen\<close> copies of the pad token and the truncated sequence is written over its
  start or its end. A truncated sequence longer than the row (only possible for
  \<open>maxlen = 0\<close>) is refused by numpy, unless it has one element, which numpy
  broadcasts into the empty row.
\<close>

definition place_row :: "string \<Rightarrow> nat \<Rightarrow> 'a \<Rightarrow> 'a list \<Rightarrow> error + 'a list" where
  "place_row padding maxlen pad_token trunc =
     (if padding = ''post'' then
        (if length trunc \<le> maxlen
         then Inr (trunc @ replicate (maxlen - length trunc) pad_token)
         else if length trunc = 1 then Inr (replicate maxlen pad_token)
         else Inl ValueError)
      else if padding = ''pre'' then
        (if length trunc \<le> maxlen
         then Inr (replicate (maxlen - length trunc) pad_token @ trunc)
         else if length trunc = 1 then Inr (replicate maxlen pad_token)
         else Inl ValueError)
      else Inl ValueError)"

text \<open>One round of the loop: the row for one sequence; an empty sequence is skipped.\<close>

definition pad_row :: "string \<Rightarrow> string \<Rightarrow> nat \<Rightarrow> 'a \<Rightarrow> 'a list \<Rightarrow> error + 'a list" where
  "pad_row padding truncating maxlen pad_token s =
     (if s = [] then Inr (replicate maxlen pad_token)
      else (case truncate_seq truncating maxlen s of
              Inl e \<Rightarrow> Inl e
            | Inr trunc \<Rightarrow> place_row padding maxlen pad_token trunc))"

text \<open>The loop: the first sequence that raises ends it.\<close>

fun pad_rows :: "string \<Rightarrow> string \<Rightarrow> nat \<Rightarrow> 'a \<Rightarrow> 'a list list \<Rightarrow> error + 'a list list" where
  "pad_rows padding truncating maxlen pad_token [] = Inr []"
| "pad_rows padding truncating maxlen pad_token (s # ss) =
     (case pad_row padding truncating maxlen pad_token s of
        Inl e \<Rightarrow> Inl e
      | Inr row \<Rightarrow>
          (case pad_rows padding truncating maxlen pad_token ss of
             Inl e \<Rightarrow> Inl e
           | Inr rows \<Rightarrow> Inr (row # rows)))"

text \<open>
  Modelled from the spec: the library function \<^verbatim>\<open>pad_sequences\<close>, which is not in
  the repository; the arguments are in the order of its signature
  \<^verbatim>\<open>pad_sequences(sequences, maxlen, dtype, padding, truncating, value)\<close>, without
  \<^verbatim>\<open>dtype\<close>.
\<close>

definition pad_sequences ::
  "'a list list \<Rightarrow> nat \<Rightarrow> string \<Rightarrow> string \<Rightarrow> 'a \<Rightarrow> error + 'a list list" where
  "pad_sequences sequences maxlen padding truncating pad_token =
     pad_rows padding truncating maxlen pad_token sequences"

text \<open>
  The notebook's call, the same for the training and the test data:
  \<^verbatim>\<open>pad_sequences(data, maxlen=100, truncating='post')\<close>.
\<close>

definition padded_data :: "int list list \<Rightarrow> error + int list list" where
  "padded_data data = pad_sequences data 100 ''pre'' ''post'' 0"

subsection \<open>The metric objects\<close>

text \<open>
  The epoch loop tracks the average loss with \<^verbatim>\<open>tf.keras.metrics.Mean()\<close> and the area
  under the ROC curve with \<^verbatim>\<open>tf.keras.metrics.AUC(curve='ROC')\<close>. Both are classes of
  Keras. A metric object is made by its constructor, fed by calling it (the call is
  \<^verbatim>\<open>update_state\<close>) and read by \<^verbatim>\<open>result()\<close>.
\<close>

text \<open>
  Modelled from the spec: TensorFlow's \<^verbatim>\<open>div_no_nan\<close>, which the library's metrics
  and losses divide with: the quotient, and 0 where the divisor is 0.
\<close>

definition div_no_nan :: "real \<Rightarrow> real \<Rightarrow> real" where
  "div_no_nan x y = (if y = 0 then 0 else x / y)"

text \<open>
  Modelled from the spec: the state of the library class \<^verbatim>\<open>tf.keras.metrics.Mean\<close>,
  which is not in the repository: "a running aggregate (sum and count)". Keras names
  the two variables \<^verbatim>\<open>total\<close> and \<^verbatim>\<open>count\<close>.
\<close>

record mean =
  m_total :: real
  m_count :: real

text \<open>Modelled from the spec: the constructor \<^verbatim>\<open>Mean()\<close>; both variables start at 0.\<close>

definition Mean :: mean where
  "Mean = \<lparr>m_total = 0, m_count = 0\<rparr>"

text \<open>
  Modelled from the spec: \<^verbatim>\<open>Mean.update_state(values)\<close>. The values of the tensor are
  summed into \<^verbatim>\<open>total\<close> and their number is added to \<^verbatim>\<open>count\<close>; a scalar is a
  tensor of one value.
\<close>

definition mean_update_state :: "mean \<Rightarrow> real list \<Rightarrow> mean" where
  "mean_update_state m vs =
     m\<lparr>m_total := m_total m + sum_list vs, m_count := m_count m + real (length vs)\<rparr>"

text \<open>Modelled from the spec: \<^verbatim>\<open>Mean.result()\<close>, \<^verbatim>\<open>div_no_nan(total, count)\<close>.\<close>

definition mean_result :: "mean \<Rightarrow> real" where
  "mean_result m = div_no_nan (m_total m) (m_count m)"

text \<open>
  Modelled from the spec: the thresholds of the library class \<^verbatim>\<open>tf.keras.metrics.AUC\<close>,
  which is not in the repository, with Keras's defaults: 200 thresholds, the first below
  0 and the last above 1 by \<^verbatim>\<open>K.epsilon() = 1e-7\<close>, the others evenly spaced in between:
  \<^verbatim>\<open>
  thresholds = [(i + 1) * 1.0 / (num_thresholds - 1) for i in range(num_thresholds - 2)]
  self.thresholds = [0.0 - K.epsilon()] + thresholds + [1.0 + K.epsilon()]
  \<close>
\<close>

definition num_thresholds :: nat where
  "num_thresholds = 200"

definition epsilon :: real where
  "epsilon = 1 / 10 ^ 7"

definition thresholds :: "real list" where
  "thresholds =
     [0 - epsilon]
     @ map (\<lambda>i. (real i + 1) * 1 / real (num_thresholds - 1)) [0..<num_thresholds - 2]
     @ [1 + epsilon]"

text \<open>
  Modelled from the spec: the state of the library class \<^verbatim>\<open>tf.keras.metrics.AUC\<close>,
  which is not in the repository: "a confusion-accumulation structure". It holds, for
  every threshold, the number of true positives, true negatives, false positives and
  false negatives seen so far.
\<close>

record auc =
  true_positives :: "real list"
  true_negatives :: "real list"
  false_positives :: "real list"
  false_negatives :: "real list"

text \<open>Modelled from the spec: the constructor \<^verbatim>\<open>AUC(curve='ROC')\<close>; all counts start at 0.\<close>

definition AUC :: auc where
  "AUC = \<lparr>true_positives = replicate num_thresholds 0,
           true_negatives = replicate num_thresholds 0,
           false_positives = replicate num_thresholds 0,
           false_negatives = replicate num_thresholds 0\<rparr>"

text \<open>
  Modelled from the spec: one cell of the library's confusion matrix at a threshold, the
  number of entries whose label, taken as a truth value (not 0), is \<open>label_is_pos\<close>
  and whose prediction is above the threshold or not, as \<open>pred_is_pos\<close> says.
\<close>

definition count_entries :: "bool \<Rightarrow> bool \<Rightarrow> real \<Rightarrow> real list \<Rightarrow> real list \<Rightarrow> real" where
  "count_entries label_is_pos pred_is_pos th y_true y_pred =
     real (length (filter (\<lambda>(l, p). (l \<noteq> 0) = label_is_pos \<and> (th < p) = pred_is_pos)
                          (zip y_true y_pred)))"

text \<open>
  Modelled from the spec: \<^verbatim>\<open>AUC.update_state(y_true, y_pred)\<close>. Labels and predictions
  must have the same shape and every prediction must lie in \<open>[0, 1]\<close> (an assertion in
  the op); both are flattened, and every threshold's four counts grow by the number of
  entries of its kind.
\<close>

definition auc_update_state :: "auc \<Rightarrow> real list list \<Rightarrow> real list list \<Rightarrow> error + auc" where
  "auc_update_state a y_true y_pred =
     (if map length y_true \<noteq> map length y_pred then Inl ValueError
      else if \<not> list_all (\<lambda>p. 0 \<le> p \<and> p \<le> 1) (concat y_pred) then Inl InvalidArgumentError
      else Inr
        \<lparr>true_positives = map2 (+) (true_positives a)
            (map (\<lambda>th. count_entries True True th (concat y_true) (concat y_pred)) thresholds),
         true_negatives = map2 (+) (true_negatives a)
            (map (\<lambda>th. count_entries False False th (concat y_true) (concat y_pred)) thresholds),
         false_positives = map2 (+) (false_positives a)
            (map (\<lambda>th. count_entries False True th (concat y_true) (concat y_pred)) thresholds),
         false_negatives = map2 (+) (false_negatives a)
            (map (\<lambda>th. count_entries True False th (concat y_true) (concat y_pred)) thresholds)\<rparr>)"

text \<open>
  Modelled from the spec: \<^verbatim>\<open>AUC.result()\<close> for the ROC curve with the summation method
  \<^verbatim>\<open>'interpolation'\<close>: the trapezoid rule over the curve's points, one per threshold.
  \<^verbatim>\<open>
  recall = div_no_nan(true_positives, true_positives + false_negatives)
  fp_rate = div_no_nan(false_positives, false_positives + true_negatives)
  x = fp_rate
  y = recall
  heights = (y[:num_thresholds - 1] + y[1:]) / 2.
  return reduce_sum((x[:num_thresholds - 1] - x[1:]) * heights)
  \<close>
\<close>

definition auc_result :: "auc \<Rightarrow> real" where
  "auc_result a =
     (let recall = map2 div_no_nan (true_positives a)
                     (map2 (+) (true_positives a) (false_negatives a));
          fp_rate = map2 div_no_nan (false_positives a)
                     (map2 (+) (false_positives a) (true_negatives a));
          x = fp_rate;
          y = recall;
          heights = map2 (\<lambda>u v. (u + v) / 2) (take (num_thresholds - 1) y) (drop 1 y)
      in sum_list (map2 (*) (map2 (-) (take (num_thresholds - 1) x) (drop 1 x)) heights))"

text \<open>
  Modelled from the spec: the library function \<^verbatim>\<open>to_categorical(labels, num_classes)\<close>,
  which is not in the repository: one row per label, 1 at the label's index and 0
  elsewhere. A class label is a natural number; numpy refuses an index that is not
  below \<^verbatim>\<open>num_classes\<close>.
\<close>

definition to_categorical :: "nat list \<Rightarrow> nat \<Rightarrow> error + real list list" where
  "to_categorical y num_classes =
     (if list_all (\<lambda>l. l < num_classes) y
      then Inr (map (\<lambda>l. map (\<lambda>j. if j = l then 1 else 0) [0..<num_classes]) y)
      else Inl IndexError)"

subsection \<open>The loss\<close>

text \<open>
  Cell 10: \<^verbatim>\<open>loss = tf.keras.losses.SparseCategoricalCrossentropy()\<close>. The object is
  called as \<^verbatim>\<open>loss(y_true, y_pred)\<close> with a batch of class labels and a batch of
  probability rows. Keras (2.0, probabilities rather than logits) clips every
  probability to \<open>[epsilon, 1 - epsilon]\<close>, takes logarithms and hands them as logits to
  \<^verbatim>\<open>sparse_softmax_cross_entropy_with_logits\<close>; the batch's loss is the mean of the
  samples' losses (\<^verbatim>\<open>SUM_OVER_BATCH_SIZE\<close>, a \<^verbatim>\<open>div_no_nan\<close>).
\<close>

text \<open>Modelled from the spec: TensorFlow's \<^verbatim>\<open>clip_by_value\<close>.\<close>

definition clip_by_value :: "real \<Rightarrow> real \<Rightarrow> real \<Rightarrow> real" where
  "clip_by_value t clip_min clip_max = min (max t clip_min) clip_max"

text \<open>
  Modelled from the spec: the loss of one sample, the negative log-probability of its
  label; the code is the library's and not in the repository. A label that is not an
  index of the row is refused by the op.
\<close>

definition sample_loss :: "nat \<Rightarrow> real list \<Rightarrow> error + real" where
  "sample_loss label probs =
     (let logits = map (\<lambda>p. ln (clip_by_value p epsilon (1 - epsilon))) probs
      in if label < length probs
         then Inr (- (logits ! label - ln (sum_list (map exp logits))))
         else Inl InvalidArgumentError)"

text \<open>The first error in a list of results, or all their values.\<close>

fun collect :: "(error + 'a) list \<Rightarrow> error + 'a list" where
  "collect [] = Inr []"
| "collect (Inl e # rs) = Inl e"
| "collect (Inr v # rs) = (case collect rs of Inl e \<Rightarrow> Inl e | Inr vs \<Rightarrow> Inr (v # vs))"

text \<open>
  Modelled from the spec: calling the library's loss object, "a scalar loss value
  summarizing prediction error across the batch". Labels and rows must be equally many.
\<close>

definition SparseCategoricalCrossentropy :: "nat list \<Rightarrow> real list list \<Rightarrow> error + real" where
  "SparseCategoricalCrossentropy y_true y_pred =
     (if length y_true \<noteq> length y_pred then Inl ValueError
      else (case collect (map2 sample_loss y_true y_pred) of
              Inl e \<Rightarrow> Inl e
            | Inr losses \<Rightarrow> Inr (div_no_nan (sum_list losses) (real (length losses)))))"

definition loss :: "nat list \<Rightarrow> real list list \<Rightarrow> error + real" where
  "loss = SparseCategoricalCrossentropy"

subsection \<open>The model, the optimizer and the training step\<close>

text \<open>
  Cells 7 and 8 define the model: \<^verbatim>\<open>RNNModel.call\<close> passes the inputs through an
  embedding, two recurrent layers and a softmax layer, all of them Keras layers. Its
  result depends on the inputs and on the layers' weights only. A model object is
  modelled by that function of the weights together with the current weights
  (\<^verbatim>\<open>model.trainable_variables\<close>). \<^verbatim>\<open>model(inputs)\<close> is the function at the current
  weights. (Keras creates the weights during the first call; here they exist from the
  start.)
\<close>

record ('p, 'x, 'y) keras_model =
  call :: "'p \<Rightarrow> 'x \<Rightarrow> 'y"
  trainable_variables :: 'p

text \<open>
  Cell 9:
  \<^verbatim>\<open>optimizer = tf.keras.optimizers.SGD(learning_rate=0.005, momentum=0.9, nesterov=True)\<close>
\<close>

record SGD =
  learning_rate :: real
  momentum :: real
  nesterov :: bool

definition optimizer :: SGD where
  "optimizer = \<lparr>learning_rate = 0.005, momentum = 0.9, nesterov = True\<rparr>"

text \<open>
  The two operations of TensorFlow that the training step uses and whose results the
  properties below do not look into; they are parameters of the model.
  \<^item> \<open>tape_gradient f v\<close> is \<^verbatim>\<open>tape.gradient(loss_value, model.trainable_variables)\<close>:
    the gradient of the computation \<open>f\<close> that the tape recorded, a function of the
    weights, at the current weights \<open>v\<close>.
  \<^item> \<open>apply_gradients opt slots grads v\<close> is
    \<^verbatim>\<open>optimizer.apply_gradients(zip(grads, model.trainable_variables))\<close>: the update
    rule of the optimizer \<open>opt\<close>. It returns the optimizer's own variables (the
    momentum accumulators) and the weights, both updated.
\<close>

record ('p, 'g, 'o) tf =
  tape_gradient :: "('p \<Rightarrow> error + real) \<Rightarrow> 'p \<Rightarrow> 'g"
  apply_gradients :: "SGD \<Rightarrow> 'o \<Rightarrow> 'g \<Rightarrow> 'p \<Rightarrow> 'o \<times> 'p"

text \<open>
  Cell 11:
  \<^verbatim>\<open>
  def grad(model, inputs, targets, loss):
      with tf.GradientTape() as tape:
          preds = model(inputs)
          loss_value = loss(targets, preds)
      return preds, loss_value, tape.gradient(loss_value, model.trainable_variables)
  \<close>
  \<^verbatim>\<open>model\<close> is a mutable object, so the function returns, next to its result, the
  model as the call leaves it. The tape recorded how \<^verbatim>\<open>loss_value\<close> was computed from
  the weights: \<open>\<lambda>v. loss targets (call model v inputs)\<close>. When \<^verbatim>\<open>loss\<close> raises, so
  does \<^verbatim>\<open>grad\<close>.
\<close>

definition grad ::
  "(('p \<Rightarrow> error + real) \<Rightarrow> 'p \<Rightarrow> 'g) \<Rightarrow> ('p, 'x, 'y) keras_model \<Rightarrow> 'x \<Rightarrow> 't \<Rightarrow>
   ('t \<Rightarrow> 'y \<Rightarrow> error + real) \<Rightarrow> (error + 'y \<times> real \<times> 'g) \<times> ('p, 'x, 'y) keras_model" where
  "grad tape_grad model inputs targets loss_fn =
     (let preds = call model (trainable_variables model) inputs
      in case loss_fn targets preds of
           Inl e \<Rightarrow> (Inl e, model)
         | Inr loss_value \<Rightarrow>
             (Inr (preds, loss_value,
                   tape_grad (\<lambda>v. loss_fn targets (call model v inputs))
                     (trainable_variables model)),
              model))"

subsection \<open>The notebook's variables\<close>

text \<open>
  A batch of the datasets of cell 6: 32 padded sequences (fewer in the last batch) and
  their class labels.
\<close>

type_synonym batch = "int list list \<times> nat list"

text \<open>
  The four metric objects of an epoch, and the calls made on them. The list \<open>calls\<close>
  below is not a variable of the notebook: it records every call on a metric object,
  in program order, so that properties about when a metric is made, fed and read can
  be stated.
\<close>

datatype metric_name = TrainLoss | TrainAUC | ValLoss | ValAUC

datatype metric_call = Create | Update | Result

record ('p, 'o) notebook =
  model :: "('p, int list list, real list list) keras_model"
  slots :: 'o   \<comment> \<open>the optimizer's own variables\<close>
  train_epoch_loss_avg :: mean
  train_epoch_roc_auc :: auc
  val_epoch_loss_avg :: mean
  val_epoch_roc_auc :: auc
  train_loss_results :: "real list"
  train_roc_auc_results :: "real list"
  val_loss_results :: "real list"
  val_roc_auc_results :: "real list"
  stdout :: "string list"   \<comment> \<open>the printed lines\<close>
  calls :: "(metric_name \<times> metric_call) list"

subsection \<open>Formatting the report\<close>

text \<open>
  Python's \<^verbatim>\<open>str.format\<close> with the three format specifications that the report uses:
  \<^verbatim>\<open>{:03d}\<close> (an integer, padded with zeros to three characters), \<^verbatim>\<open>{:.3f}\<close> (three
  digits after the point, the last one rounded, ties to even) and \<^verbatim>\<open>{:.3%}\<close> (the
  same for a hundred times the number, followed by a percent sign).
\<close>

definition digit_char :: "nat \<Rightarrow> char" where
  "digit_char d = ''0123456789'' ! (d mod 10)"

function decimal :: "nat \<Rightarrow> string" where
  "decimal n = (if n < 10 then [digit_char n] else decimal (n div 10) @ [digit_char (n mod 10)])"
  by pat_completeness auto
termination
  by (relation "measure id") auto

declare decimal.simps [simp del]

definition zero_pad :: "nat \<Rightarrow> string \<Rightarrow> string" where
  "zero_pad width s = replicate (width - length s) (CHR ''0'') @ s"

definition format_03d :: "nat \<Rightarrow> string" where
  "format_03d n = zero_pad 3 (decimal n)"

definition round_half_even :: "real \<Rightarrow> int" where
  "round_half_even x =
     (let f = \<lfloor>x\<rfloor>; r = x - of_int f
      in if r < 1 / 2 then f
         else if 1 / 2 < r then f + 1
         else if even f then f else f + 1)"

definition format_3f :: "real \<Rightarrow> string" where
  "format_3f x =
     (let n = nat (round_half_even (\<bar>x\<bar> * 1000))
      in (if x < 0 then ''-'' else [])
         @ decimal (n div 1000) @ ''.'' @ zero_pad 3 (decimal (n mod 1000)))"

definition format_3pct :: "real \<Rightarrow> string" where
  "format_3pct x = format_3f (x * 100) @ ''%''"

text \<open>
  The two lines of the report, from the format strings of cell 13:
  \<^verbatim>\<open>"Epoch {:03d}: Training loss: {:.3f}, ROC AUC: {:.3%}"\<close> and
  \<^verbatim>\<open>"              Validation loss: {:.3f}, ROC AUC {:.3%}"\<close>.
\<close>

definition training_line :: "nat \<Rightarrow> real \<Rightarrow> real \<Rightarrow> string" where
  "training_line epoch loss_avg roc_auc =
     ''Epoch '' @ format_03d epoch @ '': Training loss: '' @ format_3f loss_avg
     @ '', ROC AUC: '' @ format_3pct roc_auc"

definition validation_line :: "real \<Rightarrow> real \<Rightarrow> string" where
  "validation_line loss_avg roc_auc =
     ''              Validation loss: '' @ format_3f loss_avg
     @ '', ROC AUC '' @ format_3pct roc_auc"

subsection \<open>The custom training loop\<close>

text \<open>
  Cell 13. A step of the notebook either ends with the variables as it leaves them or
  raises; a loop ends at the first step that raises.
\<close>

fun for_each :: "('b \<Rightarrow> 's \<Rightarrow> error + 's) \<Rightarrow> 'b list \<Rightarrow> 's \<Rightarrow> error + 's" where
  "for_each body [] s = Inr s"
| "for_each body (b # bs) s =
     (case body b s of Inl e \<Rightarrow> Inl e | Inr s' \<Rightarrow> for_each body bs s')"

definition num_epochs :: nat where
  "num_epochs = 5"

definition val_steps :: nat where
  "val_steps = 10"

text \<open>
  The head of the epoch loop's body:
  \<^verbatim>\<open>
  train_epoch_loss_avg = tf.keras.metrics.Mean()
  train_epoch_roc_auc = tf.keras.metrics.AUC(curve='ROC')

  val_epoch_loss_avg = tf.keras.metrics.Mean()
  val_epoch_roc_auc = tf.keras.metrics.AUC(curve='ROC')
  \<close>
\<close>

definition new_metrics :: "('p, 'o) notebook \<Rightarrow> ('p, 'o) notebook" where
  "new_metrics s =
     s\<lparr>train_epoch_loss_avg := Mean,
       train_epoch_roc_auc := AUC,
       val_epoch_loss_avg := Mean,
       val_epoch_roc_auc := AUC,
       calls := calls s @ [(TrainLoss, Create), (TrainAUC, Create),
                           (ValLoss, Create), (ValAUC, Create)]\<rparr>"

text \<open>
  The body of the loop over the training batches:
  \<^verbatim>\<open>
  for inputs, labels in train_dataset:
      model_preds, loss_value, grads = grad(model, inputs, labels, loss)
      optimizer.apply_gradients(zip(grads, model.trainable_variables))

      train_epoch_loss_avg(loss_value)
      train_epoch_roc_auc(to_categorical(labels, num_classes=46), model_preds)
  \<close>
\<close>

definition train_step ::
  "('p, 'g, 'o) tf \<Rightarrow> batch \<Rightarrow> ('p, 'o) notebook \<Rightarrow> error + ('p, 'o) notebook" where
  "train_step lib b s =
     (case b of (inputs, labels) \<Rightarrow>
      (case grad (tape_gradient lib) (model s) inputs labels loss of
         (Inl e, m) \<Rightarrow> Inl e
       | (Inr (model_preds, loss_value, grads), m) \<Rightarrow>
           (case apply_gradients lib optimizer (slots s) grads (trainable_variables m) of
              (slots', variables') \<Rightarrow>
                (let s1 = s\<lparr>model := m\<lparr>trainable_variables := variables'\<rparr>,
                             slots := slots'\<rparr>;
                     s2 = s1\<lparr>train_epoch_loss_avg :=
                               mean_update_state (train_epoch_loss_avg s1) [loss_value],
                             calls := calls s1 @ [(TrainLoss, Update)]\<rparr>
                 in (case to_categorical labels 46 of
                       Inl e \<Rightarrow> Inl e
                     | Inr y_true \<Rightarrow>
                         (case auc_update_state (train_epoch_roc_auc s2) y_true model_preds of
                            Inl e \<Rightarrow> Inl e
                          | Inr a \<Rightarrow>
                              Inr (s2\<lparr>train_epoch_roc_auc := a,
                                      calls := calls s2 @ [(TrainAUC, Update)]\<rparr>)))))))"

text \<open>
  The body of the loop over the validation batches:
  \<^verbatim>\<open>
  for inputs, labels in val_dataset.take(val_steps):
      model_preds = model(inputs)
      val_epoch_loss_avg(loss(labels, model_preds))
      val_epoch_roc_auc(to_categorical(labels, num_classes=46), model_preds)
  \<close>
\<close>

definition val_step :: "batch \<Rightarrow> ('p, 'o) notebook \<Rightarrow> error + ('p, 'o) notebook" where
  "val_step b s =
     (case b of (inputs, labels) \<Rightarrow>
      (let model_preds = call (model s) (trainable_variables (model s)) inputs
       in (case loss labels model_preds of
             Inl e \<Rightarrow> Inl e
           | Inr loss_value \<Rightarrow>
               (let s1 = s\<lparr>val_epoch_loss_avg :=
                             mean_update_state (val_epoch_loss_avg s) [loss_value],
                           calls := calls s @ [(ValLoss, Update)]\<rparr>
                in (case to_categorical labels 46 of
                      Inl e \<Rightarrow> Inl e
                    | Inr y_true \<Rightarrow>
                        (case auc_update_state (val_epoch_roc_auc s1) y_true model_preds of
                           Inl e \<Rightarrow> Inl e
                         | Inr a \<Rightarrow>
                             Inr (s1\<lparr>val_epoch_roc_auc := a,
                                     calls := calls s1 @ [(ValAUC, Update)]\<rparr>)))))))"

text \<open>
  The four appends at the end of the epoch:
  \<^verbatim>\<open>
  train_loss_results.append(train_epoch_loss_avg.result().numpy())
  train_roc_auc_results.append(train_epoch_roc_auc.result().numpy())

  val_loss_results.append(val_epoch_loss_avg.result().numpy())
  val_roc_auc_results.append(val_epoch_roc_auc.result().numpy())
  \<close>
\<close>

definition append_results :: "('p, 'o) notebook \<Rightarrow> ('p, 'o) notebook" where
  "append_results s =
     s\<lparr>train_loss_results := train_loss_results s @ [mean_result (train_epoch_loss_avg s)],
       train_roc_auc_results := train_roc_auc_results s @ [auc_result (train_epoch_roc_auc s)],
       val_loss_results := val_loss_results s @ [mean_result (val_epoch_loss_avg s)],
       val_roc_auc_results := val_roc_auc_results s @ [auc_result (val_epoch_roc_auc s)],
       calls := calls s @ [(TrainLoss, Result), (TrainAUC, Result),
                           (ValLoss, Result), (ValAUC, Result)]\<rparr>"

text \<open>
  The two prints that end the epoch; each reads two metrics again:
  \<^verbatim>\<open>
  print("Epoch {:03d}: Training loss: {:.3f}, ROC AUC: {:.3%}".format(
      epoch, train_epoch_loss_avg.result(), train_epoch_roc_auc.result()))
  print("              Validation loss: {:.3f}, ROC AUC {:.3%}".format(
      val_epoch_loss_avg.result(), val_epoch_roc_auc.result()))
  \<close>
\<close>

definition print_report :: "nat \<Rightarrow> ('p, 'o) notebook \<Rightarrow> ('p, 'o) notebook" where
  "print_report epoch s =
     s\<lparr>stdout := stdout s
         @ [training_line epoch (mean_result (train_epoch_loss_avg s))
              (auc_result (train_epoch_roc_auc s)),
            validation_line (mean_result (val_epoch_loss_avg s))
              (auc_result (val_epoch_roc_auc s))],
       calls := calls s @ [(TrainLoss, Result), (TrainAUC, Result),
                           (ValLoss, Result), (ValAUC, Result)]\<rparr>"

text \<open>
  The phases of one epoch. The training dataset yields the same batches in every epoch.
  The validation dataset is shuffled anew whenever it is iterated
  (\<^verbatim>\<open>val_dataset.shuffle(500)\<close>), so \<open>val_dataset epoch\<close> stands for the batches
  that it yields in that epoch.
\<close>

definition training_phase ::
  "('p, 'g, 'o) tf \<Rightarrow> batch list \<Rightarrow> ('p, 'o) notebook \<Rightarrow> error + ('p, 'o) notebook" where
  "training_phase lib train_dataset s = for_each (train_step lib) train_dataset s"

definition validation_phase ::
  "batch list \<Rightarrow> ('p, 'o) notebook \<Rightarrow> error + ('p, 'o) notebook" where
  "validation_phase val_batches s = for_each val_step (take val_steps val_batches) s"

definition run_epoch ::
  "('p, 'g, 'o) tf \<Rightarrow> batch list \<Rightarrow> (nat \<Rightarrow> batch list) \<Rightarrow> nat \<Rightarrow> ('p, 'o) notebook \<Rightarrow>
   error + ('p, 'o) notebook" where
  "run_epoch lib train_dataset val_dataset epoch s =
     (case training_phase lib train_dataset (new_metrics s) of
        Inl e \<Rightarrow> Inl e
      | Inr s1 \<Rightarrow>
          (case validation_phase (val_dataset epoch) s1 of
             Inl e \<Rightarrow> Inl e
           | Inr s2 \<Rightarrow> Inr (print_report epoch (append_results s2))))"

text \<open>\<^verbatim>\<open>for epoch in range(num_epochs): ...\<close>\<close>

definition training_loop ::
  "('p, 'g, 'o) tf \<Rightarrow> batch list \<Rightarrow> (nat \<Rightarrow> batch list) \<Rightarrow> ('p, 'o) notebook \<Rightarrow>
   error + ('p, 'o) notebook" where
  "training_loop lib train_dataset val_dataset s =
     for_each (run_epoch lib train_dataset val_dataset) [0..<num_epochs] s"

subsection \<open>The update that one batch makes\<close>

text \<open>
  One round of the training loop as the specification describes it: the optimizer's
  update rule applied to the gradient of the batch's loss at the current weights.
  \<open>f\<close> is the model as a function of the weights; the pair holds the optimizer's
  own variables and the weights.
\<close>

definition update_rule ::
  "('p, 'g, 'o) tf \<Rightarrow> ('p \<Rightarrow> int list list \<Rightarrow> real list list) \<Rightarrow> 'o \<times> 'p \<Rightarrow> batch \<Rightarrow> 'o \<times> 'p" where
  "update_rule lib f ov b =
     (case ov of (sl, v) \<Rightarrow>
      (case b of (inputs, labels) \<Rightarrow>
         apply_gradients lib optimizer sl
           (tape_gradient lib (\<lambda>w. loss labels (f w inputs)) v) v))"

subsection \<open>Well-formed data\<close>

text \<open>
  What the library calls of the loop need in order not to raise: every label is one of
  the 46 classes, and the model returns one row per label, each with 46 entries between
  0 and 1, whatever its weights are.
\<close>

definition class_probabilities :: "real list list \<Rightarrow> bool" where
  "class_probabilities rows =
     list_all (\<lambda>r. length r = 46 \<and> list_all (\<lambda>p. 0 \<le> p \<and> p \<le> 1) r) rows"

definition well_formed_batch :: "('p \<Rightarrow> int list list \<Rightarrow> real list list) \<Rightarrow> batch \<Rightarrow> bool" where
  "well_formed_batch f b =
     (case b of (inputs, labels) \<Rightarrow>
        list_all (\<lambda>l. l < 46) labels \<and>
        (\<forall>v. length (f v inputs) = length labels \<and> class_probabilities (f v inputs)))"

subsection \<open>A scenario: a model that returns the uniform distribution\<close>

text \<open>
  The scenario of the specification's last testable property: a model that returns the
  uniform distribution over the 46 classes for every sample, and a batch of two samples
  with the labels 0 and 1. The model has one weight, which it ignores; the tape's
  gradient and the optimizer's rule are simple stand-ins.
\<close>

definition uniform_probs :: "real list" where
  "uniform_probs = replicate 46 (1 / 46)"

definition uniform_model :: "(real, int list list, real list list) keras_model" where
  "uniform_model =
     \<lparr>call = (\<lambda>v inputs. map (\<lambda>x. uniform_probs) inputs), trainable_variables = 0\<rparr>"

definition toy_tf :: "(real, real, nat) tf" where
  "toy_tf =
     \<lparr>tape_gradient = (\<lambda>f v. 1),
      apply_gradients = (\<lambda>opt sl g v. (sl + 1, v - learning_rate opt * g))\<rparr>"

definition two_samples :: batch where
  "two_samples = ([replicate 100 7, replicate 100 8], [0, 1])"

definition fresh_notebook :: "(real, nat) notebook" where
  "fresh_notebook =
     \<lparr>model = uniform_model, slots = 0,
      train_epoch_loss_avg = Mean, train_epoch_roc_auc = AUC,
      val_epoch_loss_avg = Mean, val_epoch_roc_auc = AUC,
      train_loss_results = [], train_roc_auc_results = [],
      val_loss_results = [], val_roc_auc_results = [],
      stdout = [], calls = []\<rparr>"

text \<open>The validation dataset of the scenario yields the same single batch in every epoch.\<close>

definition one_batch :: "nat \<Rightarrow> batch list" where
  "one_batch epoch = [two_samples]"

subsection \<open>The shape of a printed number\<close>

text \<open>
  What the specification writes as \<^verbatim>\<open>X.XXX\<close>: one or more digits, a point and three
  digits.
\<close>

definition is_digit :: "char \<Rightarrow> bool" where
  "is_digit c = (c \<in> set ''0123456789'')"

definition fixed_3 :: "string \<Rightarrow> bool" where
  "fixed_3 s =
     (4 < length s \<and>
      list_all is_digit (take (length s - 4) s) \<and>
      s ! (length s - 4) = CHR ''.'' \<and>
      list_all is_digit (drop (length s - 3) s))"

text \<open>
  What a printed number says: the number that a string of decimal digits denotes (leading
  zeros count for nothing), and the number that a string of the shape \<^verbatim>\<open>X.XXX\<close> denotes,
  its digits before the point plus its three decimals as thousandths.
\<close>

definition digit_value :: "char \<Rightarrow> nat" where
  "digit_value c = of_char c - of_char (CHR ''0'')"

definition digits_value :: "string \<Rightarrow> nat" where
  "digits_value s = foldl (\<lambda>n c. 10 * n + digit_value c) 0 s"

definition fixed_3_value :: "string \<Rightarrow> real" where
  "fixed_3_value s =
     real (digits_value (take (length s - 4) s))
     + real (digits_value (drop (length s - 3) s)) / 1000"

text \<open>The two lines that an epoch prints, for the four values that its metrics have.\<close>

definition report_lines :: "nat \<Rightarrow> real \<times> real \<times> real \<times> real \<Rightarrow> string list" where
  "report_lines epoch r =
     (case r of (train_loss, train_roc_auc, val_loss, val_roc_auc) \<Rightarrow>
        [training_line epoch train_loss train_roc_auc, validation_line val_loss val_roc_auc])"

text \<open>The four values of an epoch are losses and areas: none is negative.\<close>

definition non_negative_values :: "real \<times> real \<times> real \<times> real \<Rightarrow> bool" where
  "non_negative_values r =
     (case r of (train_loss, train_roc_auc, val_loss, val_roc_auc) \<Rightarrow>
        0 \<le> train_loss \<and> 0 \<le> train_roc_auc \<and> 0 \<le> val_loss \<and> 0 \<le> val_roc_auc)"

subsection \<open>What the metric objects hold\<close>

text \<open>
  Invariants of the metric objects between two calls. A mean that has been fed losses
  holds a non-negative sum and count. The counts of an AUC object are non-negative, and
  along the thresholds, which grow, the false positives do not grow, while false
  positives and true negatives together stay the number of negative labels seen.
\<close>

definition accumulated_mean :: "mean \<Rightarrow> bool" where
  "accumulated_mean m = (0 \<le> m_total m \<and> 0 \<le> m_count m)"

definition accumulated_counts :: "auc \<Rightarrow> bool" where
  "accumulated_counts a =
     (length (true_positives a) = num_thresholds \<and>
      length (true_negatives a) = num_thresholds \<and>
      length (false_positives a) = num_thresholds \<and>
      length (false_negatives a) = num_thresholds \<and>
      list_all (\<lambda>i. 0 \<le> true_positives a ! i \<and> 0 \<le> true_negatives a ! i \<and>
                    0 \<le> false_positives a ! i \<and> 0 \<le> false_negatives a ! i)
        [0..<num_thresholds] \<and>
      list_all (\<lambda>i. false_positives a ! Suc i \<le> false_positives a ! i \<and>
                    false_positives a ! Suc i + true_negatives a ! Suc i =
                      false_positives a ! i + true_negatives a ! i)
        [0..<num_thresholds - 1])"

definition accumulated_metrics :: "('p, 'o) notebook \<Rightarrow> bool" where
  "accumulated_metrics s =
     (accumulated_mean (train_epoch_loss_avg s) \<and> accumulated_counts (train_epoch_roc_auc s) \<and>
      accumulated_mean (val_epoch_loss_avg s) \<and> accumulated_counts (val_epoch_roc_auc s))"

subsection \<open>Perfectly separable one-hot batches\<close>

text \<open>
  The words of the specification's property about the ROC AUC. A row is one-hot when its
  entries are 0 or 1 and exactly one of them is 1. Flattened labels and predictions are
  perfectly separable when every prediction for a positive label lies above every
  prediction for a negative label.
\<close>

definition one_hot_row :: "real list \<Rightarrow> bool" where
  "one_hot_row r = (list_all (\<lambda>v. v = 0 \<or> v = 1) r \<and> sum_list r = 1)"

definition perfectly_separable :: "real list \<Rightarrow> real list \<Rightarrow> bool" where
  "perfectly_separable y_true y_pred =
     (let pos = map snd (filter (\<lambda>(l, p). l \<noteq> 0) (zip y_true y_pred));
          neg = map snd (filter (\<lambda>(l, p). l = 0) (zip y_true y_pred))
      in list_all (\<lambda>p. list_all (\<lambda>q. q < p) neg) pos)"

section \<open>Properties\<close>

subsection \<open>Padding\<close>

lemma pad_row_notebook:
  "pad_row ''pre'' ''post'' 100 (0::int) s = Inr (replicate (100 - length s) 0 @ take 100 s)"
  by (simp add: pad_row_def truncate_seq_def place_row_def min_def)

lemma pad_rows_notebook:
  "pad_rows ''pre'' ''post'' 100 (0::int) data =
     Inr (map (\<lambda>s. replicate (100 - length s) 0 @ take 100 s) data)"
  by (induction data) (simp_all add: pad_row_notebook)

lemma padded_data_map:
  "padded_data data = Inr (map (\<lambda>s. replicate (100 - length s) 0 @ take 100 s) data)"
  by (simp add: padded_data_def pad_sequences_def pad_rows_notebook)

text \<open>
  Claim C10. Every row that the padding step returns has length exactly 100, for every
  input: the step never raises, it returns one row per sequence, a sequence shorter than
  100 tokens is padded at the front with the pad token 0, and a sequence longer than 100
  tokens keeps its first 100 tokens.
\<close>

theorem padded_rows_have_length_100:
  "\<exists>rows. padded_data data = Inr rows \<and> length rows = length data \<and>
     (\<forall>i<length data.
        length (rows ! i) = 100 \<and>
        (length (data ! i) < 100 \<longrightarrow>
           rows ! i = replicate (100 - length (data ! i)) 0 @ data ! i) \<and>
        (100 < length (data ! i) \<longrightarrow> rows ! i = take 100 (data ! i)))"
proof -
  let ?row = "\<lambda>s::int list. replicate (100 - length s) 0 @ take 100 s"
  have len: "length (?row s) = 100" for s
    by (simp add: min_def)
  have short: "length s < 100 \<Longrightarrow> ?row s = replicate (100 - length s) 0 @ s" for s
    by simp
  have long: "100 < length s \<Longrightarrow> ?row s = take 100 s" for s
    by simp
  show ?thesis
    unfolding padded_data_map using len short long
    by (intro exI [of _ "map ?row data"]) simp
qed

theorem padded_rows_have_length_100_witness:
  "padded_data [[5, 6, 7], replicate 101 4] =
     Inr [replicate 97 0 @ [5, 6, 7], replicate 100 4]"
proof -
  let ?data = "[[5, 6, 7], replicate 101 4] :: int list list"
  obtain rows where r: "padded_data ?data = Inr rows"
      and n: "length rows = length ?data"
      and p: "\<forall>i<length ?data.
        (length (?data ! i) < 100 \<longrightarrow>
           rows ! i = replicate (100 - length (?data ! i)) 0 @ ?data ! i) \<and>
        (100 < length (?data ! i) \<longrightarrow> rows ! i = take 100 (?data ! i))"
    using padded_rows_have_length_100 [of ?data] by blast
  from p have "rows ! 0 = replicate 97 0 @ [5, 6, 7]" "rows ! 1 = replicate 100 4"
    by simp_all
  with n have "rows = [replicate 97 0 @ [5, 6, 7], replicate 100 4]"
    by (cases rows; cases "tl rows"; simp)
  with r show ?thesis by simp
qed

text \<open>
  Claim C8. The padding step is idempotent. Applied to sequences that all have length
  100 already, it returns them unchanged; applied to its own result, it returns that
  result again.
\<close>

theorem pad_truncate_idempotent:
  "(list_all (\<lambda>s. length s = 100) data \<longrightarrow> padded_data data = Inr data) \<and>
   (\<exists>rows. padded_data data = Inr rows \<and> padded_data rows = Inr rows)"
proof -
  have same: "map (\<lambda>s::int list. replicate (100 - length s) 0 @ take 100 s) xs = xs"
    if "list_all (\<lambda>s. length s = 100) xs" for xs
    using that by (induction xs) simp_all
  have all: "list_all (\<lambda>s. length s = 100)
               (map (\<lambda>s::int list. replicate (100 - length s) 0 @ take 100 s) data)"
    by (simp add: list_all_iff min_def)
  show ?thesis
    unfolding padded_data_map using same [OF all] same by blast
qed

theorem pad_truncate_idempotent_witness:
  "list_all (\<lambda>s. length s = 100) [replicate 100 (7::int)] \<and>
   padded_data [replicate 100 7] = Inr [replicate 100 7]"
  using pad_truncate_idempotent [of "[replicate 100 7]"] by simp

subsection \<open>The training step and the loops\<close>

lemma grad_result:
  "fst (grad tape_grad m inputs targets loss_fn) =
     (case loss_fn targets (call m (trainable_variables m) inputs) of
        Inl e \<Rightarrow> Inl e
      | Inr loss_value \<Rightarrow>
          Inr (call m (trainable_variables m) inputs, loss_value,
               tape_grad (\<lambda>v. loss_fn targets (call m v inputs)) (trainable_variables m)))"
  by (simp add: grad_def Let_def split: sum.split)

lemma grad_model: "snd (grad tape_grad m inputs targets loss_fn) = m"
  by (simp add: grad_def Let_def split: sum.split)

lemma for_each_preserves:
  assumes "for_each body bs s = Inr s'"
    and "\<And>b t t'. body b t = Inr t' \<Longrightarrow> f t' = f t"
  shows "f s' = f s"
  using assms(1)
proof (induction bs arbitrary: s)
  case Nil
  then show ?case by simp
next
  case (Cons b bs)
  then obtain t where t: "body b s = Inr t" and rest: "for_each body bs t = Inr s'"
    by (auto split: sum.splits)
  from Cons.IH [OF rest] assms(2) [OF t] show ?case by simp
qed

lemma for_each_calls:
  assumes "for_each body bs s = Inr s'"
    and "\<And>b t t'. body b t = Inr t' \<Longrightarrow> calls t' = calls t @ u"
  shows "calls s' = calls s @ concat (replicate (length bs) u)"
  using assms(1)
proof (induction bs arbitrary: s)
  case Nil
  then show ?case by simp
next
  case (Cons b bs)
  then obtain t where t: "body b s = Inr t" and rest: "for_each body bs t = Inr s'"
    by (auto split: sum.splits)
  from Cons.IH [OF rest] assms(2) [OF t] show ?case by simp
qed

lemma for_each_returns:
  assumes "\<And>b t. b \<in> set bs \<Longrightarrow> P t \<Longrightarrow> \<exists>t'. body b t = Inr t' \<and> P t'"
    and "P s"
  shows "\<exists>s'. for_each body bs s = Inr s' \<and> P s'"
  using assms
proof (induction bs arbitrary: s)
  case Nil
  then show ?case by simp
next
  case (Cons b bs)
  from Cons.prems obtain t where t: "body b s = Inr t" "P t"
    by (meson list.set_intros(1))
  from Cons.IH [of t] Cons.prems(1) t(2) obtain s' where "for_each body bs t = Inr s'" "P s'"
    by (meson list.set_intros(2))
  with t show ?case by simp
qed

lemma val_step_frame:
  assumes "val_step b s = Inr s'"
  shows "s' = s\<lparr>val_epoch_loss_avg := val_epoch_loss_avg s',
                val_epoch_roc_auc := val_epoch_roc_auc s',
                calls := calls s'\<rparr>"
    and "calls s' = calls s @ [(ValLoss, Update), (ValAUC, Update)]"
    and "m_count (val_epoch_loss_avg s') = m_count (val_epoch_loss_avg s) + 1"
  using assms
  by (auto simp add: val_step_def Let_def mean_update_state_def split: prod.splits sum.splits)

lemma train_step_update:
  assumes "train_step lib b s = Inr s'"
  shows "(slots s', trainable_variables (model s')) =
           update_rule lib (call (model s)) (slots s, trainable_variables (model s)) b"
    and "call (model s') = call (model s)"
    and "calls s' = calls s @ [(TrainLoss, Update), (TrainAUC, Update)]"
  using assms
  by (auto simp add: train_step_def update_rule_def grad_def Let_def
      split: prod.splits sum.splits)

lemma training_phase_update:
  assumes "training_phase lib train_dataset s = Inr s'"
  shows "(slots s', trainable_variables (model s')) =
           foldl (update_rule lib (call (model s))) (slots s, trainable_variables (model s))
             train_dataset \<and>
         call (model s') = call (model s)"
  using assms unfolding training_phase_def
proof (induction train_dataset arbitrary: s)
  case Nil
  then show ?case by simp
next
  case (Cons b bs)
  then obtain t where t: "train_step lib b s = Inr t"
      and rest: "for_each (train_step lib) bs t = Inr s'"
    by (auto split: sum.splits)
  from Cons.IH [OF rest] train_step_update(1,2) [OF t] show ?case by simp
qed

lemma val_step_others:
  assumes "val_step b s = Inr s'"
  shows "(model s', slots s', train_epoch_loss_avg s', train_epoch_roc_auc s',
          train_loss_results s', train_roc_auc_results s', val_loss_results s',
          val_roc_auc_results s', stdout s', notebook.more s') =
         (model s, slots s, train_epoch_loss_avg s, train_epoch_roc_auc s,
          train_loss_results s, train_roc_auc_results s, val_loss_results s,
          val_roc_auc_results s, stdout s, notebook.more s)"
  using assms
  by (auto simp add: val_step_def Let_def split: prod.splits sum.splits)

lemma validation_phase_frame:
  assumes "validation_phase val_batches s = Inr s'"
  shows "s' = s\<lparr>val_epoch_loss_avg := val_epoch_loss_avg s',
                val_epoch_roc_auc := val_epoch_roc_auc s',
                calls := calls s'\<rparr>"
proof -
  have "(model s', slots s', train_epoch_loss_avg s', train_epoch_roc_auc s',
          train_loss_results s', train_roc_auc_results s', val_loss_results s',
          val_roc_auc_results s', stdout s', notebook.more s') =
         (model s, slots s, train_epoch_loss_avg s, train_epoch_roc_auc s,
          train_loss_results s, train_roc_auc_results s, val_loss_results s,
          val_roc_auc_results s, stdout s, notebook.more s)"
    by (rule for_each_preserves [OF assms [unfolded validation_phase_def]])
      (rule val_step_others)
  then show ?thesis
    by (intro notebook.equality) simp_all
qed

lemma validation_phase_calls:
  assumes "validation_phase val_batches s = Inr s'"
  shows "calls s' = calls s @ concat (replicate (min val_steps (length val_batches))
                                       [(ValLoss, Update), (ValAUC, Update)])"
proof -
  have "calls s' = calls s @ concat (replicate (length (take val_steps val_batches))
                                      [(ValLoss, Update), (ValAUC, Update)])"
    by (rule for_each_calls [OF assms [unfolded validation_phase_def]])
      (rule val_step_frame(2))
  then show ?thesis
    by (simp add: min.commute)
qed

lemma validation_phase_count:
  assumes "validation_phase val_batches s = Inr s'"
  shows "m_count (val_epoch_loss_avg s') =
           m_count (val_epoch_loss_avg s) + real (min val_steps (length val_batches))"
proof -
  have "for_each val_step bs t = Inr t' \<Longrightarrow>
          m_count (val_epoch_loss_avg t') = m_count (val_epoch_loss_avg t) + real (length bs)"
    for bs and t t' :: "('a, 'b) notebook"
  proof (induction bs arbitrary: t)
    case Nil
    then show ?case by simp
  next
    case (Cons b bs)
    then obtain u where u: "val_step b t = Inr u" and rest: "for_each val_step bs u = Inr t'"
      by (auto split: sum.splits)
    from Cons.IH [OF rest] val_step_frame(3) [OF u] show ?case by simp
  qed
  from this [OF assms [unfolded validation_phase_def]] show ?thesis
    by (simp add: min.commute)
qed

subsection \<open>On well-formed data no library call raises\<close>

lemma collect_returns:
  "list_all (\<lambda>r. \<exists>v. r = Inr v) rs \<Longrightarrow> \<exists>vs. collect rs = Inr vs"
  by (induction rs rule: collect.induct) auto

lemma loss_returns:
  assumes "length y_true = length y_pred"
    and "list_all2 (\<lambda>l row. l < length row) y_true y_pred"
  shows "\<exists>v. loss y_true y_pred = Inr v"
proof -
  from assms(2) have "list_all (\<lambda>r. \<exists>v. r = Inr v) (map2 sample_loss y_true y_pred)"
    by (induction rule: list_all2_induct) (simp_all add: sample_loss_def Let_def)
  from collect_returns [OF this] assms(1) show ?thesis
    by (auto simp add: loss_def SparseCategoricalCrossentropy_def)
qed

lemma to_categorical_returns:
  "list_all (\<lambda>l. l < n) y \<Longrightarrow>
     \<exists>rows. to_categorical y n = Inr rows \<and> map length rows = replicate (length y) n"
  by (simp add: to_categorical_def comp_def map_replicate_const)

lemma auc_update_state_returns:
  "map length y_true = map length y_pred \<Longrightarrow>
   list_all (\<lambda>p. 0 \<le> p \<and> p \<le> 1) (concat y_pred) \<Longrightarrow>
     \<exists>a'. auc_update_state a y_true y_pred = Inr a'"
  by (simp add: auc_update_state_def)

lemma class_probabilities_shape:
  "class_probabilities rows \<Longrightarrow>
     map length rows = replicate (length rows) 46 \<and>
     list_all (\<lambda>p. 0 \<le> p \<and> p \<le> 1) (concat rows)"
  by (induction rows) (simp_all add: class_probabilities_def)

lemma well_formed_metric_calls:
  assumes "list_all (\<lambda>l. l < 46) labels"
    and "length preds = length labels"
    and "class_probabilities preds"
  shows "\<exists>v. loss labels preds = Inr v"
    and "\<exists>y_true. to_categorical labels 46 = Inr y_true \<and>
           (\<forall>a. \<exists>a'. auc_update_state a y_true preds = Inr a')"
proof -
  from assms(3) have rows: "list_all (\<lambda>r. length r = 46) preds"
    by (simp add: class_probabilities_def list_all_iff)
  with assms(1,2) have "list_all2 (\<lambda>l row. l < length row) labels preds"
    by (simp add: list_all2_conv_all_nth list_all_length)
  with assms(2) show "\<exists>v. loss labels preds = Inr v"
    by (intro loss_returns) simp_all
  from to_categorical_returns [OF assms(1)] obtain y_true
    where y: "to_categorical labels 46 = Inr y_true"
      and shape: "map length y_true = replicate (length labels) 46"
    by blast
  from class_probabilities_shape [OF assms(3)] assms(2) shape
  have "\<exists>a'. auc_update_state a y_true preds = Inr a'" for a
    by (intro auc_update_state_returns) simp_all
  with y show "\<exists>y_true. to_categorical labels 46 = Inr y_true \<and>
           (\<forall>a. \<exists>a'. auc_update_state a y_true preds = Inr a')"
    by blast
qed

lemma val_step_returns:
  assumes "well_formed_batch (call (model s)) b"
  shows "\<exists>s'. val_step b s = Inr s'"
proof -
  obtain inputs labels where b: "b = (inputs, labels)"
    by (cases b)
  let ?preds = "call (model s) (trainable_variables (model s)) inputs"
  from assms b have wf: "list_all (\<lambda>l. l < 46) labels" "length ?preds = length labels"
      "class_probabilities ?preds"
    by (simp_all add: well_formed_batch_def)
  from well_formed_metric_calls [OF wf] obtain v y_true
    where v: "loss labels ?preds = Inr v" and y: "to_categorical labels 46 = Inr y_true"
      and "\<forall>a. \<exists>a'. auc_update_state a y_true ?preds = Inr a'"
    by blast
  then obtain a' where a': "auc_update_state (val_epoch_roc_auc s) y_true ?preds = Inr a'"
    by blast
  show ?thesis
    by (simp add: val_step_def b Let_def v y a')
qed

lemma train_step_returns:
  assumes "well_formed_batch (call (model s)) b"
  shows "\<exists>s'. train_step lib b s = Inr s'"
proof -
  obtain inputs labels where b: "b = (inputs, labels)"
    by (cases b)
  let ?preds = "call (model s) (trainable_variables (model s)) inputs"
  from assms b have wf: "list_all (\<lambda>l. l < 46) labels" "length ?preds = length labels"
      "class_probabilities ?preds"
    by (simp_all add: well_formed_batch_def)
  from well_formed_metric_calls [OF wf] obtain v y_true
    where v: "loss labels ?preds = Inr v" and y: "to_categorical labels 46 = Inr y_true"
      and "\<forall>a. \<exists>a'. auc_update_state a y_true ?preds = Inr a'"
    by blast
  then obtain a' where a': "auc_update_state (train_epoch_roc_auc s) y_true ?preds = Inr a'"
    by blast
  show ?thesis
    by (simp add: train_step_def b grad_def Let_def v y a' split: prod.split)
qed

lemma training_phase_returns:
  fixes s :: "('p, 'o) notebook" and lib :: "('p, 'g, 'o) tf"
  assumes "list_all (well_formed_batch (call (model s))) train_dataset"
  shows "\<exists>s'. training_phase lib train_dataset s = Inr s' \<and> call (model s') = call (model s)"
  unfolding training_phase_def
proof (rule for_each_returns)
  fix b and t :: "('p, 'o) notebook"
  assume "b \<in> set train_dataset" and t: "call (model t) = call (model s)"
  with assms have "well_formed_batch (call (model t)) b"
    by (simp add: list_all_iff)
  from train_step_returns [OF this] obtain t' where t': "train_step lib b t = Inr t'"
    by blast
  with train_step_update(2) [OF t'] t
  show "\<exists>t'. train_step lib b t = Inr t' \<and> call (model t') = call (model s)"
    by simp
qed simp

lemma validation_phase_returns:
  fixes s :: "('p, 'o) notebook"
  assumes "list_all (well_formed_batch (call (model s))) val_batches"
  shows "\<exists>s'. validation_phase val_batches s = Inr s'"
proof -
  have "\<exists>s'. for_each val_step (take val_steps val_batches) s = Inr s' \<and> model s' = model s"
  proof (rule for_each_returns)
    fix b and t :: "('p, 'o) notebook"
    assume "b \<in> set (take val_steps val_batches)" and t: "model t = model s"
    with assms have "well_formed_batch (call (model t)) b"
      by (auto simp add: list_all_iff dest: in_set_takeD)
    from val_step_returns [OF this] obtain t' where t': "val_step b t = Inr t'"
      by blast
    with val_step_others [OF t'] t show "\<exists>t'. val_step b t = Inr t' \<and> model t' = model s"
      by simp
  qed simp
  then show ?thesis
    by (auto simp add: validation_phase_def)
qed

lemma run_epoch_returns:
  assumes "list_all (well_formed_batch (call (model s))) train_dataset"
    and "list_all (well_formed_batch (call (model s))) (val_dataset epoch)"
  shows "\<exists>s'. run_epoch lib train_dataset val_dataset epoch s = Inr s'"
proof -
  have "call (model (new_metrics s)) = call (model s)"
    by (simp add: new_metrics_def)
  with training_phase_returns [of "new_metrics s" train_dataset lib] assms(1)
  obtain s1 where s1: "training_phase lib train_dataset (new_metrics s) = Inr s1"
      "call (model s1) = call (model s)"
    by auto
  with validation_phase_returns [of s1 "val_dataset epoch"] assms(2)
  obtain s2 where "validation_phase (val_dataset epoch) s1 = Inr s2"
    by auto
  with s1 show ?thesis
    by (simp add: run_epoch_def)
qed

lemma uniform_rows: "class_probabilities (map (\<lambda>x. uniform_probs) inputs)"
  by (simp add: class_probabilities_def uniform_probs_def list_all_iff)

lemma two_samples_well_formed: "well_formed_batch (call uniform_model) two_samples"
  by (simp add: well_formed_batch_def uniform_model_def two_samples_def uniform_rows)

text \<open>
  Claim C1. The training step returns exactly the triple of the model's predictions at
  the current weights, the loss of those predictions against the targets, and the
  gradient that the tape computes for that loss, as a function of the weights, at the
  current weights; it returns nothing else. With the notebook's loss it does return
  whenever every label is one of the 46 classes and the model's rows are probabilities
  over them, one row per label.
\<close>

theorem grad_returns_predictions_loss_gradient:
  "((fst (grad tape_grad m inputs targets loss_fn) = Inr (preds, loss_value, grads)) =
      (preds = call m (trainable_variables m) inputs \<and>
       loss_fn targets preds = Inr loss_value \<and>
       grads = tape_grad (\<lambda>v. loss_fn targets (call m v inputs)) (trainable_variables m))) \<and>
   (list_all (\<lambda>l. l < 46) labels \<and>
    length (call m (trainable_variables m) inputs) = length labels \<and>
    class_probabilities (call m (trainable_variables m) inputs) \<longrightarrow>
      (\<exists>v. fst (grad tape_grad m inputs labels loss) =
             Inr (call m (trainable_variables m) inputs, v,
                  tape_grad (\<lambda>w. loss labels (call m w inputs)) (trainable_variables m))))"
proof (intro conjI impI)
  show "(fst (grad tape_grad m inputs targets loss_fn) = Inr (preds, loss_value, grads)) =
      (preds = call m (trainable_variables m) inputs \<and>
       loss_fn targets preds = Inr loss_value \<and>
       grads = tape_grad (\<lambda>v. loss_fn targets (call m v inputs)) (trainable_variables m))"
    by (auto simp add: grad_result split: sum.splits)
next
  assume "list_all (\<lambda>l. l < 46) labels \<and>
    length (call m (trainable_variables m) inputs) = length labels \<and>
    class_probabilities (call m (trainable_variables m) inputs)"
  then obtain v where "loss labels (call m (trainable_variables m) inputs) = Inr v"
    using well_formed_metric_calls(1) by blast
  then show "\<exists>v. fst (grad tape_grad m inputs labels loss) =
             Inr (call m (trainable_variables m) inputs, v,
                  tape_grad (\<lambda>w. loss labels (call m w inputs)) (trainable_variables m))"
    by (simp add: grad_result)
qed

theorem grad_returns_predictions_loss_gradient_witness:
  "\<exists>v. fst (grad (tape_gradient toy_tf) uniform_model [replicate 100 7, replicate 100 8]
               [0, 1] loss) =
         Inr ([uniform_probs, uniform_probs], v, 1)"
proof -
  have wf: "list_all (\<lambda>l. l < 46) [0, 1::nat] \<and>
    length (call uniform_model (trainable_variables uniform_model)
              [replicate 100 7, replicate 100 8]) = length [0, 1::nat] \<and>
    class_probabilities (call uniform_model (trainable_variables uniform_model)
              [replicate 100 7, replicate 100 8])"
    using uniform_rows [of "[replicate 100 7, replicate 100 8]"]
    by (simp add: uniform_model_def)
  let ?inputs = "[replicate 100 7, replicate 100 8] :: int list list"
  have "\<exists>v. fst (grad (tape_gradient toy_tf) uniform_model ?inputs [0, 1] loss) =
          Inr (call uniform_model (trainable_variables uniform_model) ?inputs, v,
               tape_gradient toy_tf (\<lambda>w. loss [0, 1] (call uniform_model w ?inputs))
                 (trainable_variables uniform_model))"
    by (rule grad_returns_predictions_loss_gradient [THEN conjunct2, THEN mp, OF wf])
  then show ?thesis
    by (simp add: uniform_model_def toy_tf_def)
qed

lemma run_epoch_phases:
  assumes "run_epoch lib train_dataset val_dataset epoch s = Inr s'"
  obtains s1 s2 where "training_phase lib train_dataset (new_metrics s) = Inr s1"
    and "validation_phase (val_dataset epoch) s1 = Inr s2"
    and "s' = print_report epoch (append_results s2)"
  using assms by (auto simp add: run_epoch_def split: sum.splits)

lemma run_epoch_update:
  assumes "run_epoch lib train_dataset val_dataset epoch s = Inr s'"
  shows "(slots s', trainable_variables (model s')) =
           foldl (update_rule lib (call (model s))) (slots s, trainable_variables (model s))
             train_dataset"
proof -
  from assms obtain s1 s2
    where s1: "training_phase lib train_dataset (new_metrics s) = Inr s1"
      and s2: "validation_phase (val_dataset epoch) s1 = Inr s2"
      and s': "s' = print_report epoch (append_results s2)"
    by (rule run_epoch_phases)
  from validation_phase_frame [OF s2] have "model s2 = model s1" "slots s2 = slots s1"
    by (metis notebook.select_convs(1) notebook.surjective notebook.update_convs(5,6,12),
        metis notebook.select_convs(2) notebook.surjective notebook.update_convs(5,6,12))
  with s' have "model s' = model s1" "slots s' = slots s1"
    by (simp_all add: print_report_def append_results_def)
  with training_phase_update [OF s1] show ?thesis
    by (simp add: new_metrics_def)
qed

text \<open>
  Claim C2. The training step leaves the model as it found it. The weights change in
  the caller only: a round of the training loop replaces the optimizer's variables and
  the weights by what the optimizer's rule makes of the gradient that the step
  returned, and after an epoch they are the result of one such update per training
  batch, in order. The optimizer is the same in every round: gradient descent with
  learning rate 0.005 and (Nesterov) momentum 0.9.
\<close>

theorem grad_leaves_the_update_to_the_caller:
  "snd (grad tape_grad m inputs targets loss_fn) = m \<and>
   (train_step lib b s = Inr s' \<longrightarrow>
      (slots s', trainable_variables (model s')) =
        update_rule lib (call (model s)) (slots s, trainable_variables (model s)) b \<and>
      call (model s') = call (model s)) \<and>
   (run_epoch lib train_dataset val_dataset epoch s = Inr s'' \<longrightarrow>
      (slots s'', trainable_variables (model s'')) =
        foldl (update_rule lib (call (model s))) (slots s, trainable_variables (model s))
          train_dataset) \<and>
   learning_rate optimizer = 0.005 \<and> momentum optimizer = 0.9 \<and> nesterov optimizer"
  using grad_model [of tape_grad m inputs targets loss_fn]
    train_step_update(1,2) [of lib b s s']
    run_epoch_update [of lib train_dataset val_dataset epoch s s'']
  by (simp add: optimizer_def)

theorem grad_leaves_the_update_to_the_caller_witness:
  "(\<exists>s'. train_step toy_tf two_samples fresh_notebook = Inr s' \<and>
         slots s' = 1 \<and> trainable_variables (model s') = - 0.005) \<and>
   (\<exists>s''. run_epoch toy_tf [two_samples, two_samples] (\<lambda>epoch. [two_samples]) 0
            fresh_notebook = Inr s'' \<and>
          slots s'' = 2 \<and> trainable_variables (model s'') = - 0.01)"
proof -
  have wf: "well_formed_batch (call (model fresh_notebook)) two_samples"
    using two_samples_well_formed by (simp add: fresh_notebook_def)
  have step: "update_rule toy_tf (call (model fresh_notebook)) (sl, v) two_samples =
                (sl + 1, v - 0.005)" for sl v
    by (simp add: update_rule_def toy_tf_def two_samples_def optimizer_def)
  have start: "slots fresh_notebook = 0" "trainable_variables (model fresh_notebook) = 0"
    by (simp_all add: fresh_notebook_def uniform_model_def)
  from train_step_returns [OF wf] obtain s'
    where s': "train_step toy_tf two_samples fresh_notebook = Inr s'"
    by blast
  from wf run_epoch_returns [of fresh_notebook "[two_samples, two_samples]"
      "\<lambda>epoch. [two_samples]" 0 toy_tf]
  obtain s'' where s'': "run_epoch toy_tf [two_samples, two_samples]
      (\<lambda>epoch. [two_samples]) 0 fresh_notebook = Inr s''"
    by auto
  from grad_leaves_the_update_to_the_caller
    [of "tape_gradient toy_tf" uniform_model "fst two_samples" "snd two_samples" loss
      toy_tf two_samples fresh_notebook s' "[two_samples, two_samples]"
      "\<lambda>epoch. [two_samples]" 0 s''] s' s''
  have "(slots s', trainable_variables (model s')) = (1, - 0.005)"
    and "(slots s'', trainable_variables (model s'')) = (2, - 0.01)"
    by (simp_all add: step start)
  with s' s'' show ?thesis
    by simp
qed

text \<open>
  Claim C3. The validation phase runs its loop body on the first \<open>val_steps\<close>
  batches that the validation dataset yields (on all of them if there are fewer), in
  their order, so at most 10 times; what it does depends on no later batch: two
  sequences of batches that agree on their first \<open>val_steps\<close> batches give the same
  result. It changes the two validation metrics (and the record of calls on
  them) and nothing else: the model with its weights, the optimizer's variables, the
  training metrics, the result lists and the output are as before. What an epoch ends
  with are therefore the weights that its training phase left.
\<close>

theorem validation_changes_only_its_metrics:
  "(validation_phase val_batches s = Inr s' \<longrightarrow>
      s' = s\<lparr>val_epoch_loss_avg := val_epoch_loss_avg s',
              val_epoch_roc_auc := val_epoch_roc_auc s',
              calls := calls s'\<rparr> \<and>
      model s' = model s \<and> slots s' = slots s \<and>
      calls s' = calls s @ concat (replicate (min val_steps (length val_batches))
                                     [(ValLoss, Update), (ValAUC, Update)]) \<and>
      m_count (val_epoch_loss_avg s') =
        m_count (val_epoch_loss_avg s) + real (min val_steps (length val_batches))) \<and>
   min val_steps (length val_batches) \<le> 10 \<and>
   prefix (take val_steps val_batches) val_batches \<and>
   validation_phase val_batches s = for_each val_step (take val_steps val_batches) s \<and>
   (take val_steps val_batches = take val_steps other_batches \<longrightarrow>
      validation_phase val_batches s = validation_phase other_batches s) \<and>
   (run_epoch lib train_dataset val_dataset epoch s = Inr s'' \<longrightarrow>
      (\<exists>s1. training_phase lib train_dataset (new_metrics s) = Inr s1 \<and>
            model s'' = model s1 \<and> slots s'' = slots s1))"
proof (intro conjI impI)
  assume v: "validation_phase val_batches s = Inr s'"
  from validation_phase_frame [OF v]
  show frame: "s' = s\<lparr>val_epoch_loss_avg := val_epoch_loss_avg s',
              val_epoch_roc_auc := val_epoch_roc_auc s',
              calls := calls s'\<rparr>" .
  have "model s' = model (s\<lparr>val_epoch_loss_avg := val_epoch_loss_avg s',
              val_epoch_roc_auc := val_epoch_roc_auc s', calls := calls s'\<rparr>)"
    using frame by simp
  then show "model s' = model s"
    by simp
  have "slots s' = slots (s\<lparr>val_epoch_loss_avg := val_epoch_loss_avg s',
              val_epoch_roc_auc := val_epoch_roc_auc s', calls := calls s'\<rparr>)"
    using frame by simp
  then show "slots s' = slots s"
    by simp
  from validation_phase_calls [OF v]
  show "calls s' = calls s @ concat (replicate (min val_steps (length val_batches))
                                     [(ValLoss, Update), (ValAUC, Update)])" .
  from validation_phase_count [OF v]
  show "m_count (val_epoch_loss_avg s') =
        m_count (val_epoch_loss_avg s) + real (min val_steps (length val_batches))" .
next
  show "min val_steps (length val_batches) \<le> 10"
    by (simp add: val_steps_def)
  show "prefix (take val_steps val_batches) val_batches"
    by (rule take_is_prefix)
  show "validation_phase val_batches s = for_each val_step (take val_steps val_batches) s"
    by (simp only: validation_phase_def)
next
  assume "take val_steps val_batches = take val_steps other_batches"
  then show "validation_phase val_batches s = validation_phase other_batches s"
    by (simp only: validation_phase_def)
next
  assume "run_epoch lib train_dataset val_dataset epoch s = Inr s''"
  then obtain s1 s2
    where s1: "training_phase lib train_dataset (new_metrics s) = Inr s1"
      and s2: "validation_phase (val_dataset epoch) s1 = Inr s2"
      and s'': "s'' = print_report epoch (append_results s2)"
    by (rule run_epoch_phases)
  have "(model s2, slots s2) =
          (model (s1\<lparr>val_epoch_loss_avg := val_epoch_loss_avg s2,
              val_epoch_roc_auc := val_epoch_roc_auc s2, calls := calls s2\<rparr>),
           slots (s1\<lparr>val_epoch_loss_avg := val_epoch_loss_avg s2,
              val_epoch_roc_auc := val_epoch_roc_auc s2, calls := calls s2\<rparr>))"
    using validation_phase_frame [OF s2] by simp
  with s'' have "model s'' = model s1 \<and> slots s'' = slots s1"
    by (simp add: print_report_def append_results_def)
  with s1 show "\<exists>s1. training_phase lib train_dataset (new_metrics s) = Inr s1 \<and>
            model s'' = model s1 \<and> slots s'' = slots s1"
    by blast
qed

theorem validation_changes_only_its_metrics_witness:
  "(\<exists>s'. validation_phase (replicate 12 two_samples) fresh_notebook = Inr s' \<and>
         model s' = uniform_model \<and> slots s' = 0 \<and>
         m_count (val_epoch_loss_avg s') = 10 \<and> length (calls s') = 20) \<and>
   validation_phase (replicate 12 two_samples) fresh_notebook =
     validation_phase (replicate 10 two_samples) fresh_notebook \<and>
   (\<exists>s'' s1. run_epoch toy_tf [two_samples] (\<lambda>epoch. replicate 12 two_samples) 0
               fresh_notebook = Inr s'' \<and>
             training_phase toy_tf [two_samples] (new_metrics fresh_notebook) = Inr s1 \<and>
             model s'' = model s1 \<and> slots s'' = slots s1)"
proof -
  have wf: "list_all (well_formed_batch (call (model fresh_notebook))) (replicate n two_samples)"
    for n
    using two_samples_well_formed by (simp add: fresh_notebook_def list_all_iff)
  from validation_phase_returns [OF wf] obtain s'
    where s': "validation_phase (replicate 12 two_samples) fresh_notebook = Inr s'"
    by blast
  from wf [of 1] wf [of 12]
    run_epoch_returns [of fresh_notebook "[two_samples]" "\<lambda>epoch. replicate 12 two_samples" 0 toy_tf]
  obtain s'' where s'': "run_epoch toy_tf [two_samples] (\<lambda>epoch. replicate 12 two_samples) 0
      fresh_notebook = Inr s''"
    by auto
  note inst = validation_changes_only_its_metrics
    [where val_batches = "replicate 12 two_samples" and s = fresh_notebook and s' = s'
      and other_batches = "replicate 10 two_samples" and lib = toy_tf
      and train_dataset = "[two_samples]"
      and val_dataset = "\<lambda>epoch. replicate 12 two_samples" and epoch = 0 and s'' = s'']
  have "take val_steps (replicate 12 two_samples) = take val_steps (replicate 10 two_samples)"
    by (simp add: val_steps_def)
  with inst [THEN conjunct2, THEN conjunct2, THEN conjunct2, THEN conjunct2, THEN conjunct1]
  have same: "validation_phase (replicate 12 two_samples) fresh_notebook =
      validation_phase (replicate 10 two_samples) fresh_notebook"
    by (rule mp)
  from inst s' have "model s' = uniform_model" "slots s' = 0"
    "m_count (val_epoch_loss_avg s') = 10" "length (calls s') = 20"
    by (simp_all add: fresh_notebook_def val_steps_def Mean_def length_concat sum_list_replicate)
  moreover from inst s'' have "\<exists>s1. training_phase toy_tf [two_samples] (new_metrics fresh_notebook) = Inr s1 \<and>
             model s'' = model s1 \<and> slots s'' = slots s1"
    by blast
  ultimately show ?thesis
    using s' s'' same by blast
qed

subsection \<open>The life of a metric object\<close>

lemma train_step_others:
  assumes "train_step lib b s = Inr s'"
  shows "(val_epoch_loss_avg s', val_epoch_roc_auc s', train_loss_results s',
          train_roc_auc_results s', val_loss_results s', val_roc_auc_results s', stdout s') =
         (val_epoch_loss_avg s, val_epoch_roc_auc s, train_loss_results s,
          train_roc_auc_results s, val_loss_results s, val_roc_auc_results s, stdout s)"
  using assms
  by (auto simp add: train_step_def grad_def Let_def split: prod.splits sum.splits)

lemma training_phase_calls:
  assumes "training_phase lib train_dataset s = Inr s'"
  shows "calls s' = calls s @ concat (replicate (length train_dataset)
                                       [(TrainLoss, Update), (TrainAUC, Update)])"
  by (rule for_each_calls [OF assms [unfolded training_phase_def]])
    (rule train_step_update(3))

lemma training_phase_others:
  assumes "training_phase lib train_dataset s = Inr s'"
  shows "(val_epoch_loss_avg s', val_epoch_roc_auc s', train_loss_results s',
          train_roc_auc_results s', val_loss_results s', val_roc_auc_results s', stdout s') =
         (val_epoch_loss_avg s, val_epoch_roc_auc s, train_loss_results s,
          train_roc_auc_results s, val_loss_results s, val_roc_auc_results s, stdout s)"
  by (rule for_each_preserves [OF assms [unfolded training_phase_def]])
    (rule train_step_others)

lemma validation_phase_others:
  assumes "validation_phase val_batches s = Inr s'"
  shows "(model s', slots s', train_epoch_loss_avg s', train_epoch_roc_auc s',
          train_loss_results s', train_roc_auc_results s', val_loss_results s',
          val_roc_auc_results s', stdout s', notebook.more s') =
         (model s, slots s, train_epoch_loss_avg s, train_epoch_roc_auc s,
          train_loss_results s, train_roc_auc_results s, val_loss_results s,
          val_roc_auc_results s, stdout s, notebook.more s)"
  by (rule for_each_preserves [OF assms [unfolded validation_phase_def]])
    (rule val_step_others)

lemma run_epoch_calls:
  assumes "run_epoch lib train_dataset val_dataset epoch s = Inr s'"
  shows "calls s' =
     calls s
     @ [(TrainLoss, Create), (TrainAUC, Create), (ValLoss, Create), (ValAUC, Create)]
     @ concat (replicate (length train_dataset) [(TrainLoss, Update), (TrainAUC, Update)])
     @ concat (replicate (min val_steps (length (val_dataset epoch)))
                 [(ValLoss, Update), (ValAUC, Update)])
     @ [(TrainLoss, Result), (TrainAUC, Result), (ValLoss, Result), (ValAUC, Result)]
     @ [(TrainLoss, Result), (TrainAUC, Result), (ValLoss, Result), (ValAUC, Result)]"
proof -
  from assms obtain s1 s2
    where s1: "training_phase lib train_dataset (new_metrics s) = Inr s1"
      and s2: "validation_phase (val_dataset epoch) s1 = Inr s2"
      and s': "s' = print_report epoch (append_results s2)"
    by (rule run_epoch_phases)
  from training_phase_calls [OF s1] validation_phase_calls [OF s2] s' show ?thesis
    by (simp add: print_report_def append_results_def new_metrics_def)
qed

lemma run_epoch_results:
  assumes "run_epoch lib train_dataset val_dataset epoch s = Inr s'"
  shows "train_loss_results s' = train_loss_results s @ [mean_result (train_epoch_loss_avg s')]"
    and "train_roc_auc_results s' =
           train_roc_auc_results s @ [auc_result (train_epoch_roc_auc s')]"
    and "val_loss_results s' = val_loss_results s @ [mean_result (val_epoch_loss_avg s')]"
    and "val_roc_auc_results s' = val_roc_auc_results s @ [auc_result (val_epoch_roc_auc s')]"
    and "stdout s' = stdout s
           @ [training_line epoch (mean_result (train_epoch_loss_avg s'))
                (auc_result (train_epoch_roc_auc s')),
              validation_line (mean_result (val_epoch_loss_avg s'))
                (auc_result (val_epoch_roc_auc s'))]"
proof -
  from assms obtain s1 s2
    where s1: "training_phase lib train_dataset (new_metrics s) = Inr s1"
      and s2: "validation_phase (val_dataset epoch) s1 = Inr s2"
      and s': "s' = print_report epoch (append_results s2)"
    by (rule run_epoch_phases)
  from training_phase_others [OF s1] validation_phase_others [OF s2]
  have "train_loss_results s2 = train_loss_results s"
    "train_roc_auc_results s2 = train_roc_auc_results s"
    "val_loss_results s2 = val_loss_results s"
    "val_roc_auc_results s2 = val_roc_auc_results s"
    "stdout s2 = stdout s"
    by (simp_all add: new_metrics_def)
  with s' show
    "train_loss_results s' = train_loss_results s @ [mean_result (train_epoch_loss_avg s')]"
    "train_roc_auc_results s' =
           train_roc_auc_results s @ [auc_result (train_epoch_roc_auc s')]"
    "val_loss_results s' = val_loss_results s @ [mean_result (val_epoch_loss_avg s')]"
    "val_roc_auc_results s' = val_roc_auc_results s @ [auc_result (val_epoch_roc_auc s')]"
    "stdout s' = stdout s
           @ [training_line epoch (mean_result (train_epoch_loss_avg s'))
                (auc_result (train_epoch_roc_auc s')),
              validation_line (mean_result (val_epoch_loss_avg s'))
                (auc_result (val_epoch_roc_auc s'))]"
    by (simp_all add: print_report_def append_results_def)
qed

lemma count_list_append: "count_list (xs @ ys) x = count_list xs x + count_list ys x"
  by (induction xs) simp_all

lemma count_list_updates:
  "count_list (concat (replicate n [(a, Update), (b, Update)])) (m, Result) = 0"
  by (induction n) simp_all

lemma run_epoch_reads:
  assumes "run_epoch lib train_dataset val_dataset epoch s = Inr s'"
  shows "count_list (calls s') (m, Result) = count_list (calls s) (m, Result) + 2"
  unfolding run_epoch_calls [OF assms]
  by (cases m) (simp_all add: count_list_append count_list_updates)

lemma scenario_epoch:
  "\<exists>s'. run_epoch toy_tf [two_samples] one_batch 0 fresh_notebook = Inr s'"
  using two_samples_well_formed
  by (intro run_epoch_returns) (simp_all add: fresh_notebook_def one_batch_def)

text \<open>
  Claim C5, as the notebook has it. The four metric objects of an epoch are made anew,
  in their initial empty state, before the epoch's first batch; the epoch's outcome does
  not depend on the metric objects that the epoch before left behind. They are fed
  during the epoch's two loops and read when both loops have ended, and not before:
  each of them twice, once for the value that is appended to its result list and once
  for the report that is printed. Every result list grows by one value per epoch, the
  result of that epoch's metric object.
\<close>

theorem metrics_live_for_one_epoch:
  "train_epoch_loss_avg (new_metrics s) = Mean \<and>
   train_epoch_roc_auc (new_metrics s) = AUC \<and>
   val_epoch_loss_avg (new_metrics s) = Mean \<and>
   val_epoch_roc_auc (new_metrics s) = AUC \<and>
   run_epoch lib train_dataset val_dataset epoch
       (s\<lparr>train_epoch_loss_avg := a, train_epoch_roc_auc := b,
          val_epoch_loss_avg := c, val_epoch_roc_auc := d\<rparr>) =
     run_epoch lib train_dataset val_dataset epoch s \<and>
   (run_epoch lib train_dataset val_dataset epoch s = Inr s' \<longrightarrow>
      calls s' =
        calls s
        @ [(TrainLoss, Create), (TrainAUC, Create), (ValLoss, Create), (ValAUC, Create)]
        @ concat (replicate (length train_dataset) [(TrainLoss, Update), (TrainAUC, Update)])
        @ concat (replicate (min val_steps (length (val_dataset epoch)))
                    [(ValLoss, Update), (ValAUC, Update)])
        @ [(TrainLoss, Result), (TrainAUC, Result), (ValLoss, Result), (ValAUC, Result)]
        @ [(TrainLoss, Result), (TrainAUC, Result), (ValLoss, Result), (ValAUC, Result)] \<and>
      count_list (calls s') (m, Result) = count_list (calls s) (m, Result) + 2 \<and>
      train_loss_results s' = train_loss_results s @ [mean_result (train_epoch_loss_avg s')] \<and>
      train_roc_auc_results s' =
        train_roc_auc_results s @ [auc_result (train_epoch_roc_auc s')] \<and>
      val_loss_results s' = val_loss_results s @ [mean_result (val_epoch_loss_avg s')] \<and>
      val_roc_auc_results s' = val_roc_auc_results s @ [auc_result (val_epoch_roc_auc s')])"
proof -
  have "new_metrics (s\<lparr>train_epoch_loss_avg := a, train_epoch_roc_auc := b,
          val_epoch_loss_avg := c, val_epoch_roc_auc := d\<rparr>) = new_metrics s"
    by (simp add: new_metrics_def)
  then have "run_epoch lib train_dataset val_dataset epoch
       (s\<lparr>train_epoch_loss_avg := a, train_epoch_roc_auc := b,
          val_epoch_loss_avg := c, val_epoch_roc_auc := d\<rparr>) =
     run_epoch lib train_dataset val_dataset epoch s"
    by (simp only: run_epoch_def)
  then show ?thesis
    using run_epoch_calls [of lib train_dataset val_dataset epoch s s']
      run_epoch_reads [of lib train_dataset val_dataset epoch s s' m]
      run_epoch_results(1-4) [of lib train_dataset val_dataset epoch s s']
    by (simp add: new_metrics_def)
qed

theorem metrics_live_for_one_epoch_witness:
  "\<exists>s'. run_epoch toy_tf [two_samples] one_batch 0 fresh_notebook = Inr s' \<and>
        calls s' =
          [(TrainLoss, Create), (TrainAUC, Create), (ValLoss, Create), (ValAUC, Create),
           (TrainLoss, Update), (TrainAUC, Update), (ValLoss, Update), (ValAUC, Update),
           (TrainLoss, Result), (TrainAUC, Result), (ValLoss, Result), (ValAUC, Result),
           (TrainLoss, Result), (TrainAUC, Result), (ValLoss, Result), (ValAUC, Result)] \<and>
        train_loss_results s' = [mean_result (train_epoch_loss_avg s')] \<and>
        val_roc_auc_results s' = [auc_result (val_epoch_roc_auc s')]"
proof -
  from scenario_epoch obtain s'
    where s': "run_epoch toy_tf [two_samples] one_batch 0 fresh_notebook = Inr s'"
    by blast
  from metrics_live_for_one_epoch
    [where s = fresh_notebook and lib = toy_tf and train_dataset = "[two_samples]"
      and val_dataset = one_batch and epoch = 0 and a = Mean and b = AUC and c = Mean
      and d = AUC and s' = s' and m = TrainLoss] s'
  have "calls s' =
          [(TrainLoss, Create), (TrainAUC, Create), (ValLoss, Create), (ValAUC, Create),
           (TrainLoss, Update), (TrainAUC, Update), (ValLoss, Update), (ValAUC, Update),
           (TrainLoss, Result), (TrainAUC, Result), (ValLoss, Result), (ValAUC, Result),
           (TrainLoss, Result), (TrainAUC, Result), (ValLoss, Result), (ValAUC, Result)]"
    and "train_loss_results s' = [mean_result (train_epoch_loss_avg s')]"
    and "val_roc_auc_results s' = [auc_result (val_epoch_roc_auc s')]"
    by (simp_all add: fresh_notebook_def one_batch_def val_steps_def)
  with s' show ?thesis
    by blast
qed

text \<open>
  Claim C5 as stated has every metric read exactly once per epoch. In an epoch of the
  scenario (one training batch, one validation batch, a fresh notebook) the mean
  training loss is read twice.
\<close>

theorem metric_read_twice_counterexample:
  "\<not> isl (run_epoch toy_tf [two_samples] one_batch 0 fresh_notebook) \<and>
   count_list (calls (projr (run_epoch toy_tf [two_samples] one_batch 0 fresh_notebook)))
     (TrainLoss, Result) = 2 \<and>
   count_list (calls (projr (run_epoch toy_tf [two_samples] one_batch 0 fresh_notebook)))
     (TrainLoss, Result) \<noteq> 1"
proof -
  from scenario_epoch obtain s'
    where s': "run_epoch toy_tf [two_samples] one_batch 0 fresh_notebook = Inr s'"
    by blast
  from run_epoch_reads [OF s', of TrainLoss] have "count_list (calls s') (TrainLoss, Result) = 2"
    by (simp add: fresh_notebook_def)
  with s' show ?thesis
    by simp
qed

subsection \<open>The report\<close>

lemma digit_char_is_digit: "is_digit (digit_char d)"
proof -
  have "d mod 10 < length ''0123456789''"
    by simp
  then have "''0123456789'' ! (d mod 10) \<in> set ''0123456789''"
    by (rule nth_mem)
  then show ?thesis
    by (simp only: is_digit_def digit_char_def)
qed

lemma decimal_digits: "list_all is_digit (decimal n) \<and> decimal n \<noteq> []"
proof (induction n rule: decimal.induct)
  case (1 n)
  show ?case
  proof (cases "n < 10")
    case True
    then show ?thesis
      by (subst (1 2) decimal.simps) (simp add: digit_char_is_digit)
  next
    case False
    with "1" show ?thesis
      by (subst (1 2) decimal.simps) (simp add: digit_char_is_digit)
  qed
qed

lemma decimal_length: "n < 10 ^ Suc k \<Longrightarrow> length (decimal n) \<le> Suc k"
proof (induction k arbitrary: n)
  case 0
  then show ?case
    by (subst decimal.simps) simp
next
  case (Suc k)
  show ?case
  proof (cases "n < 10")
    case True
    then show ?thesis
      by (subst decimal.simps) simp
  next
    case False
    from Suc.prems have "n div 10 < 10 ^ Suc k"
      by (simp add: less_mult_imp_div_less)
    from Suc.IH [OF this] False show ?thesis
      by (subst decimal.simps) simp
  qed
qed

lemma zero_pad_3:
  assumes "n < 1000"
  shows "length (zero_pad 3 (decimal n)) = 3 \<and> list_all is_digit (zero_pad 3 (decimal n))"
proof -
  from assms decimal_length [of n 2] have "length (decimal n) \<le> 3"
    by simp
  moreover have "is_digit (CHR ''0'')"
    by (simp add: is_digit_def)
  ultimately show ?thesis
    using decimal_digits [of n] by (auto simp add: zero_pad_def list_all_iff)
qed

lemma fixed_3_intro:
  assumes "i \<noteq> []" "list_all is_digit i" "length f = 3" "list_all is_digit f"
  shows "fixed_3 (i @ ''.'' @ f)"
  using assms by (simp add: fixed_3_def nth_append)

lemma format_3f_fixed_3:
  assumes "0 \<le> x"
  shows "fixed_3 (format_3f x)"
proof -
  let ?n = "nat (round_half_even (\<bar>x\<bar> * 1000))"
  have "fixed_3 (decimal (?n div 1000) @ ''.'' @ zero_pad 3 (decimal (?n mod 1000)))"
    using decimal_digits [of "?n div 1000"] zero_pad_3 [of "?n mod 1000"]
    by (intro fixed_3_intro) simp_all
  with assms show ?thesis
    by (simp add: format_3f_def Let_def)
qed

lemma format_3pct_fixed_3: "0 \<le> x \<Longrightarrow> \<exists>y. format_3pct x = y @ ''%'' \<and> fixed_3 y"
  using format_3f_fixed_3 [of "x * 100"] by (simp add: format_3pct_def)

lemma run_epoch_call:
  assumes "run_epoch lib train_dataset val_dataset epoch s = Inr s'"
  shows "call (model s') = call (model s)"
proof -
  from assms obtain s1 s2
    where s1: "training_phase lib train_dataset (new_metrics s) = Inr s1"
      and s2: "validation_phase (val_dataset epoch) s1 = Inr s2"
      and s': "s' = print_report epoch (append_results s2)"
    by (rule run_epoch_phases)
  from validation_phase_others [OF s2] s' have "model s' = model s1"
    by (simp add: print_report_def append_results_def)
  with training_phase_update [OF s1] show ?thesis
    by (simp add: new_metrics_def)
qed

lemma training_loop_returns:
  fixes s :: "('p, 'o) notebook" and lib :: "('p, 'g, 'o) tf"
  assumes "list_all (well_formed_batch (call (model s))) train_dataset"
    and "\<And>epoch. list_all (well_formed_batch (call (model s))) (val_dataset epoch)"
  shows "\<exists>s'. training_loop lib train_dataset val_dataset s = Inr s'"
proof -
  have "\<exists>s'. for_each (run_epoch lib train_dataset val_dataset) [0..<num_epochs] s = Inr s' \<and>
          call (model s') = call (model s)"
  proof (rule for_each_returns)
    fix epoch and t :: "('p, 'o) notebook"
    assume t: "call (model t) = call (model s)"
    with assms run_epoch_returns [of t train_dataset val_dataset epoch lib]
    obtain t' where "run_epoch lib train_dataset val_dataset epoch t = Inr t'"
      by auto
    with run_epoch_call [OF this] t
    show "\<exists>t'. run_epoch lib train_dataset val_dataset epoch t = Inr t' \<and>
            call (model t') = call (model s)"
      by simp
  qed simp
  then show ?thesis
    by (auto simp add: training_loop_def)
qed

lemma digit_value_digit_char: "digit_value (digit_char d) = d mod 10"
proof -
  have "d mod 10 < 10"
    by simp
  then consider "d mod 10 = 0" | "d mod 10 = 1" | "d mod 10 = 2" | "d mod 10 = 3"
    | "d mod 10 = 4" | "d mod 10 = 5" | "d mod 10 = 6" | "d mod 10 = 7" | "d mod 10 = 8"
    | "d mod 10 = 9"
    by atomize_elim arith
  then show ?thesis
    by cases (simp_all add: digit_value_def digit_char_def)
qed

lemma digits_value_snoc: "digits_value (s @ [c]) = 10 * digits_value s + digit_value c"
  by (simp add: digits_value_def)

lemma digits_value_decimal: "digits_value (decimal n) = n"
proof (induction n rule: decimal.induct)
  case (1 n)
  show ?case
  proof (cases "n < 10")
    case True
    then show ?thesis
      by (subst decimal.simps) (simp add: digits_value_def digit_value_digit_char)
  next
    case False
    with "1" show ?thesis
      by (subst decimal.simps) (simp add: digits_value_snoc digit_value_digit_char)
  qed
qed

lemma digits_value_zeros: "foldl (\<lambda>n c. 10 * n + digit_value c) 0 (replicate k (CHR ''0'')) = 0"
  by (induction k) (simp_all add: digit_value_def)

lemma digits_value_zero_pad: "digits_value (zero_pad w s) = digits_value s"
  by (simp add: digits_value_def zero_pad_def digits_value_zeros)

lemma round_half_even_near: "\<bar>of_int (round_half_even z) - z\<bar> \<le> 1 / 2"
proof -
  have "of_int \<lfloor>z\<rfloor> \<le> z" "z < of_int \<lfloor>z\<rfloor> + 1"
    by linarith+
  then show ?thesis
    unfolding round_half_even_def Let_def by (auto simp add: abs_le_iff)
qed

lemma round_half_even_non_negative: "0 \<le> z \<Longrightarrow> 0 \<le> round_half_even z"
  unfolding round_half_even_def Let_def by (auto simp add: zero_le_floor intro: add_nonneg_nonneg)

lemma format_3f_value:
  assumes "0 \<le> x"
  shows "fixed_3_value (format_3f x) = of_int (round_half_even (x * 1000)) / 1000"
proof -
  let ?n = "nat (round_half_even (x * 1000))"
  let ?f = "zero_pad 3 (decimal (?n mod 1000))"
  have len: "length ?f = 3"
    using zero_pad_3 [of "?n mod 1000"] by simp
  from assms have s: "format_3f x = decimal (?n div 1000) @ ''.'' @ ?f"
    by (simp add: format_3f_def Let_def)
  have "take (length (format_3f x) - 4) (format_3f x) = decimal (?n div 1000)"
    unfolding s using len by simp
  moreover have "drop (length (format_3f x) - 3) (format_3f x) = ?f"
    unfolding s using len by simp
  ultimately have "fixed_3_value (format_3f x) =
      real (?n div 1000) + real (?n mod 1000) / 1000"
    by (simp only: fixed_3_value_def digits_value_decimal digits_value_zero_pad)
  also have "\<dots> = real ?n / 1000"
  proof -
    have "?n = ?n div 1000 * 1000 + ?n mod 1000"
      by simp
    then have "real ?n = real (?n div 1000 * 1000 + ?n mod 1000)"
      by (rule arg_cong)
    then have "real ?n = real (?n div 1000) * 1000 + real (?n mod 1000)"
      by (simp only: of_nat_add of_nat_mult of_nat_numeral)
    then show ?thesis
      by (simp only: add_divide_distrib)
  qed
  also from assms have "real ?n = of_int (round_half_even (x * 1000))"
    using round_half_even_non_negative [of "x * 1000"] by simp
  finally show ?thesis .
qed

lemma format_3f_near:
  assumes "0 \<le> x"
  shows "\<bar>fixed_3_value (format_3f x) - x\<bar> \<le> 1 / 2000"
proof -
  have "\<bar>of_int (round_half_even (x * 1000)) / 1000 - x\<bar> =
        \<bar>of_int (round_half_even (x * 1000)) - x * 1000\<bar> / 1000"
    by (simp add: field_simps)
  also have "\<dots> \<le> (1 / 2) / 1000"
    by (intro divide_right_mono round_half_even_near) simp
  finally show ?thesis
    by (simp add: format_3f_value [OF assms])
qed

lemma format_03d_value: "digits_value (format_03d n) = n"
  by (simp add: format_03d_def digits_value_zero_pad digits_value_decimal)

lemma entry_le_sum_list:
  fixes xs :: "real list"
  assumes "x \<in> set xs" and "\<And>y. y \<in> set xs \<Longrightarrow> 0 \<le> y"
  shows "x \<le> sum_list xs"
  using assms
proof (induction xs)
  case Nil
  then show ?case by simp
next
  case (Cons a xs)
  have rest: "0 \<le> sum_list xs"
    by (rule sum_list_nonneg) (simp add: Cons.prems(2))
  show ?case
  proof (cases "x = a")
    case True
    with rest show ?thesis by simp
  next
    case False
    with Cons.prems(1) have "x \<in> set xs"
      by simp
    from Cons.IH [OF this] Cons.prems(2) have "x \<le> sum_list xs"
      by simp
    moreover have "0 \<le> a"
      by (rule Cons.prems(2)) simp
    ultimately show ?thesis by simp
  qed
qed

lemma clip_positive: "0 < clip_by_value p epsilon (1 - epsilon)"
  by (simp add: clip_by_value_def epsilon_def)

lemma sample_loss_non_negative:
  assumes "sample_loss label probs = Inr v"
  shows "0 \<le> v"
proof -
  let ?c = "map (\<lambda>p. clip_by_value p epsilon (1 - epsilon)) probs"
  have logits: "map exp (map (\<lambda>p. ln (clip_by_value p epsilon (1 - epsilon))) probs) = ?c"
    by (simp add: clip_positive)
  from assms have l: "label < length probs"
    and v: "v = - (ln (?c ! label) - ln (sum_list ?c))"
    unfolding sample_loss_def Let_def logits by (simp_all split: if_splits)
  from l have "?c ! label \<in> set ?c"
    by (intro nth_mem) simp
  then have "?c ! label \<le> sum_list ?c"
    by (rule entry_le_sum_list) (auto intro: less_imp_le clip_positive)
  moreover from l have "0 < ?c ! label"
    by (simp add: clip_positive)
  ultimately have "ln (?c ! label) \<le> ln (sum_list ?c)"
    by (subst ln_le_cancel_iff) simp_all
  with v show ?thesis
    by simp
qed

lemma collect_values: "collect rs = Inr vs \<Longrightarrow> rs = map Inr vs"
  by (induction rs arbitrary: vs rule: collect.induct) (auto split: sum.splits)

lemma loss_non_negative:
  assumes "loss y_true y_pred = Inr v"
  shows "0 \<le> v"
proof -
  from assms obtain losses
    where c: "collect (map2 sample_loss y_true y_pred) = Inr losses"
      and v: "v = div_no_nan (sum_list losses) (real (length losses))"
    by (auto simp add: loss_def SparseCategoricalCrossentropy_def split: if_splits sum.splits)
  have "0 \<le> l" if "l \<in> set losses" for l
  proof -
    from that collect_values [OF c] have "Inr l \<in> set (map2 sample_loss y_true y_pred)"
      by simp
    then obtain label probs where "sample_loss label probs = Inr l"
      by auto
    then show ?thesis
      by (rule sample_loss_non_negative)
  qed
  then have "0 \<le> sum_list losses"
    by (rule sum_list_nonneg)
  with v show ?thesis
    by (simp add: div_no_nan_def)
qed

lemma accumulated_mean_Mean: "accumulated_mean Mean"
  by (simp add: accumulated_mean_def Mean_def)

lemma accumulated_mean_update:
  "accumulated_mean m \<Longrightarrow> 0 \<le> v \<Longrightarrow> accumulated_mean (mean_update_state m [v])"
  by (simp add: accumulated_mean_def mean_update_state_def)

lemma mean_result_non_negative: "accumulated_mean m \<Longrightarrow> 0 \<le> mean_result m"
  by (simp add: accumulated_mean_def mean_result_def div_no_nan_def)

lemma filter_length_mono:
  "(\<And>x. x \<in> set xs \<Longrightarrow> P x \<Longrightarrow> Q x) \<Longrightarrow> length (filter P xs) \<le> length (filter Q xs)"
  by (induction xs) auto

lemma false_positives_antitone:
  "th \<le> th' \<Longrightarrow> count_entries False True th' ys ps \<le> count_entries False True th ys ps"
  unfolding count_entries_def of_nat_le_iff by (rule filter_length_mono) auto

lemma negatives_split:
  "length (filter (\<lambda>(l, p). (l \<noteq> 0) = False \<and> (th < p) = True) zs)
   + length (filter (\<lambda>(l, p). (l \<noteq> 0) = False \<and> (th < p) = False) zs)
   = length (filter (\<lambda>(l, p). l = (0::real)) (zs :: (real \<times> real) list))"
  by (induction zs) auto

lemma negatives_constant:
  "count_entries False True th ys ps + count_entries False False th ys ps =
   count_entries False True th' ys ps + count_entries False False th' ys ps"
proof -
  have "count_entries False True t ys ps + count_entries False False t ys ps =
        real (length (filter (\<lambda>(l, p). l = 0) (zip ys ps)))" for t
    unfolding count_entries_def of_nat_add [symmetric] negatives_split ..
  then show ?thesis
    by simp
qed

lemma count_entries_non_negative: "0 \<le> count_entries u v th ys ps"
  by (simp add: count_entries_def)

lemma thresholds_nth:
  "i < 200 \<Longrightarrow>
     thresholds ! i = (if i = 0 then 0 - epsilon else if i = 199 then 1 + epsilon else real i / 199)"
  by (auto simp add: thresholds_def num_thresholds_def nth_append nth_Cons')

lemma thresholds_sorted:
  assumes "i < 199"
  shows "thresholds ! i \<le> thresholds ! Suc i"
proof -
  from assms have "real i / 199 \<le> real (Suc i) / 199" "real i / 199 \<le> 1"
    by (simp_all add: divide_right_mono)
  with assms show ?thesis
    by (simp add: thresholds_nth epsilon_def)
qed

lemma accumulated_counts_nth:
  "accumulated_counts a \<longleftrightarrow>
     length (true_positives a) = 200 \<and> length (true_negatives a) = 200 \<and>
     length (false_positives a) = 200 \<and> length (false_negatives a) = 200 \<and>
     (\<forall>i<200. 0 \<le> true_positives a ! i \<and> 0 \<le> true_negatives a ! i \<and>
              0 \<le> false_positives a ! i \<and> 0 \<le> false_negatives a ! i) \<and>
     (\<forall>i<199. false_positives a ! Suc i \<le> false_positives a ! i \<and>
              false_positives a ! Suc i + true_negatives a ! Suc i =
                false_positives a ! i + true_negatives a ! i)"
  by (auto simp add: accumulated_counts_def num_thresholds_def list_all_iff)

lemma accumulated_counts_AUC: "accumulated_counts AUC"
  by (simp add: accumulated_counts_nth AUC_def num_thresholds_def)

lemma thresholds_length: "length thresholds = 200"
  by (simp add: thresholds_def num_thresholds_def)

lemma added_counts_nth:
  assumes "length xs = 200" and "i < 200"
  shows "map2 (+) xs (map f thresholds) ! i = xs ! i + f (thresholds ! i)"
  using assms by (simp add: thresholds_length)

lemma accumulated_counts_update:
  assumes "auc_update_state a y_true y_pred = Inr a'" and "accumulated_counts a"
  shows "accumulated_counts a'"
proof -
  let ?ys = "concat y_true" and ?ps = "concat y_pred"
  from assms(1) have a':
    "true_positives a' = map2 (+) (true_positives a)
        (map (\<lambda>th. count_entries True True th ?ys ?ps) thresholds)"
    "true_negatives a' = map2 (+) (true_negatives a)
        (map (\<lambda>th. count_entries False False th ?ys ?ps) thresholds)"
    "false_positives a' = map2 (+) (false_positives a)
        (map (\<lambda>th. count_entries False True th ?ys ?ps) thresholds)"
    "false_negatives a' = map2 (+) (false_negatives a)
        (map (\<lambda>th. count_entries True False th ?ys ?ps) thresholds)"
    by (auto simp add: auc_update_state_def split: if_splits)
  from assms(2) have len: "length (true_positives a) = 200" "length (true_negatives a) = 200"
      "length (false_positives a) = 200" "length (false_negatives a) = 200"
    and pos: "\<And>i. i < 200 \<Longrightarrow> 0 \<le> true_positives a ! i \<and> 0 \<le> true_negatives a ! i \<and>
              0 \<le> false_positives a ! i \<and> 0 \<le> false_negatives a ! i"
    and curve: "\<And>i. i < 199 \<Longrightarrow> false_positives a ! Suc i \<le> false_positives a ! i \<and>
              false_positives a ! Suc i + true_negatives a ! Suc i =
                false_positives a ! i + true_negatives a ! i"
    by (simp_all add: accumulated_counts_nth)
  have len': "length (true_positives a') = 200" "length (true_negatives a') = 200"
      "length (false_positives a') = 200" "length (false_negatives a') = 200"
    by (simp_all add: a' len thresholds_length)
  have pos': "0 \<le> true_positives a' ! i \<and> 0 \<le> true_negatives a' ! i \<and>
              0 \<le> false_positives a' ! i \<and> 0 \<le> false_negatives a' ! i" if "i < 200" for i
    using pos [OF that] that
    by (simp add: a' added_counts_nth len count_entries_non_negative)
  have curve': "false_positives a' ! Suc i \<le> false_positives a' ! i \<and>
              false_positives a' ! Suc i + true_negatives a' ! Suc i =
                false_positives a' ! i + true_negatives a' ! i" if "i < 199" for i
  proof -
    from that have i: "i < 200" "Suc i < 200"
      by simp_all
    from false_positives_antitone [OF thresholds_sorted [OF that]]
    have "count_entries False True (thresholds ! Suc i) ?ys ?ps
          \<le> count_entries False True (thresholds ! i) ?ys ?ps" .
    moreover note negatives_constant [of "thresholds ! Suc i" ?ys ?ps "thresholds ! i"]
    moreover note curve [OF that]
    ultimately show ?thesis
      by (simp add: a' added_counts_nth [OF _ i(1)] added_counts_nth [OF _ i(2)] len)
  qed
  from len' pos' curve' show ?thesis
    by (simp add: accumulated_counts_nth)
qed

lemma trapezoid_non_negative:
  fixes x y :: "real list"
  assumes "length x = Suc n" and "length y = Suc n"
    and "\<And>i. i < n \<Longrightarrow> x ! Suc i \<le> x ! i"
    and "\<And>i. i < Suc n \<Longrightarrow> 0 \<le> y ! i"
  shows "0 \<le> sum_list (map2 (*) (map2 (-) (take n x) (drop 1 x))
                          (map2 (\<lambda>u v. (u + v) / 2) (take n y) (drop 1 y)))"
proof (rule sum_list_nonneg)
  fix v
  let ?ts = "map2 (*) (map2 (-) (take n x) (drop 1 x))
               (map2 (\<lambda>u v. (u + v) / 2) (take n y) (drop 1 y))"
  assume "v \<in> set ?ts"
  then obtain i where i: "i < length ?ts" and v: "v = ?ts ! i"
    by (auto simp add: in_set_conv_nth)
  from i assms(1,2) have n: "i < n"
    by simp
  with v assms(1,2) have "v = (x ! i - x ! Suc i) * ((y ! i + y ! Suc i) / 2)"
    by simp
  moreover from assms(3) [OF n] have "0 \<le> x ! i - x ! Suc i"
    by simp
  moreover from assms(4) [of i] assms(4) [of "Suc i"] n have "0 \<le> (y ! i + y ! Suc i) / 2"
    by simp
  ultimately show "0 \<le> v"
    by (simp only: mult_nonneg_nonneg)
qed

lemma auc_result_non_negative:
  assumes "accumulated_counts a"
  shows "0 \<le> auc_result a"
proof -
  let ?y = "map2 div_no_nan (true_positives a)
              (map2 (+) (true_positives a) (false_negatives a))"
  let ?x = "map2 div_no_nan (false_positives a)
              (map2 (+) (false_positives a) (true_negatives a))"
  from assms have len: "length (true_positives a) = 200" "length (true_negatives a) = 200"
      "length (false_positives a) = 200" "length (false_negatives a) = 200"
    and pos: "\<And>i. i < 200 \<Longrightarrow> 0 \<le> true_positives a ! i \<and> 0 \<le> true_negatives a ! i \<and>
              0 \<le> false_positives a ! i \<and> 0 \<le> false_negatives a ! i"
    and curve: "\<And>i. i < 199 \<Longrightarrow> false_positives a ! Suc i \<le> false_positives a ! i \<and>
              false_positives a ! Suc i + true_negatives a ! Suc i =
                false_positives a ! i + true_negatives a ! i"
    by (simp_all add: accumulated_counts_nth)
  have x: "?x ! i = div_no_nan (false_positives a ! i)
                      (false_positives a ! i + true_negatives a ! i)" if "i < 200" for i
    using that by (simp add: len)
  have y: "?y ! i = div_no_nan (true_positives a ! i)
                      (true_positives a ! i + false_negatives a ! i)" if "i < 200" for i
    using that by (simp add: len)
  have "0 \<le> sum_list (map2 (*) (map2 (-) (take 199 ?x) (drop 1 ?x))
                          (map2 (\<lambda>u v. (u + v) / 2) (take 199 ?y) (drop 1 ?y)))"
  proof (rule trapezoid_non_negative)
    show "length ?x = Suc 199" "length ?y = Suc 199"
      by (simp_all add: len)
  next
    fix i :: nat
    assume i: "i < 199"
    then have b: "i < 200" "Suc i < 200"
      by simp_all
    from curve [OF i] pos [OF b(1)] pos [OF b(2)]
    show "?x ! Suc i \<le> ?x ! i"
      unfolding x [OF b(1)] x [OF b(2)]
      by (simp add: div_no_nan_def divide_right_mono)
  next
    fix i :: nat
    assume "i < Suc 199"
    then have b: "i < 200"
      by simp
    from pos [OF b] show "0 \<le> ?y ! i"
      unfolding y [OF b] by (simp add: div_no_nan_def)
  qed
  then show ?thesis
    by (simp add: auc_result_def Let_def num_thresholds_def)
qed

lemma for_each_invariant:
  assumes "for_each body bs s = Inr s'"
    and "\<And>b t t'. body b t = Inr t' \<Longrightarrow> P t \<Longrightarrow> P t'"
    and "P s"
  shows "P s'"
  using assms(1,3)
proof (induction bs arbitrary: s)
  case Nil
  then show ?case by simp
next
  case (Cons b bs)
  then obtain t where t: "body b s = Inr t" and rest: "for_each body bs t = Inr s'"
    by (auto split: sum.splits)
  from assms(2) [OF t Cons.prems(2)] have "P t" .
  from Cons.IH [OF rest this] show ?case .
qed

lemma new_metrics_accumulated: "accumulated_metrics (new_metrics s)"
  by (simp add: accumulated_metrics_def new_metrics_def accumulated_mean_Mean
      accumulated_counts_AUC)

lemma accumulated_mean_loss:
  "accumulated_mean m \<Longrightarrow> loss y_true y_pred = Inr v \<Longrightarrow>
     accumulated_mean (mean_update_state m [v])"
  by (rule accumulated_mean_update) (simp_all add: loss_non_negative)

lemma train_step_accumulated:
  assumes "train_step lib b s = Inr s'" and "accumulated_metrics s"
  shows "accumulated_metrics s'"
  using assms
  by (auto simp add: train_step_def grad_def Let_def accumulated_metrics_def
      intro: accumulated_mean_loss accumulated_counts_update
      split: prod.splits sum.splits)

lemma val_step_accumulated:
  assumes "val_step b s = Inr s'" and "accumulated_metrics s"
  shows "accumulated_metrics s'"
  using assms
  by (auto simp add: val_step_def Let_def accumulated_metrics_def
      intro: accumulated_mean_loss accumulated_counts_update
      split: prod.splits sum.splits)

lemma run_epoch_non_negative:
  assumes "run_epoch lib train_dataset val_dataset epoch s = Inr s'"
  shows "non_negative_values
           (mean_result (train_epoch_loss_avg s'), auc_result (train_epoch_roc_auc s'),
            mean_result (val_epoch_loss_avg s'), auc_result (val_epoch_roc_auc s'))"
proof -
  from assms obtain s1 s2
    where s1: "training_phase lib train_dataset (new_metrics s) = Inr s1"
      and s2: "validation_phase (val_dataset epoch) s1 = Inr s2"
      and s': "s' = print_report epoch (append_results s2)"
    by (rule run_epoch_phases)
  have "accumulated_metrics s1"
    by (rule for_each_invariant [OF s1 [unfolded training_phase_def]])
      (erule (1) train_step_accumulated, rule new_metrics_accumulated)
  then have "accumulated_metrics s2"
    by (rule for_each_invariant [OF s2 [unfolded validation_phase_def], rotated])
      (erule (1) val_step_accumulated)
  with s' have "accumulated_metrics s'"
    by (simp add: accumulated_metrics_def print_report_def append_results_def)
  then show ?thesis
    by (simp add: accumulated_metrics_def non_negative_values_def mean_result_non_negative
        auc_result_non_negative)
qed

lemma epochs_report_values:
  assumes "for_each (run_epoch lib train_dataset val_dataset) epochs s = Inr s'"
  shows "\<exists>rs. length rs = length epochs \<and>
           stdout s' = stdout s @ concat (map2 report_lines epochs rs) \<and>
           train_loss_results s' = train_loss_results s @ map fst rs \<and>
           train_roc_auc_results s' = train_roc_auc_results s @ map (fst \<circ> snd) rs \<and>
           val_loss_results s' = val_loss_results s @ map (fst \<circ> snd \<circ> snd) rs \<and>
           val_roc_auc_results s' = val_roc_auc_results s @ map (snd \<circ> snd \<circ> snd) rs \<and>
           list_all non_negative_values rs"
  using assms
proof (induction epochs arbitrary: s)
  case Nil
  then show ?case by simp
next
  case (Cons e es)
  then obtain t where t: "run_epoch lib train_dataset val_dataset e s = Inr t"
      and rest: "for_each (run_epoch lib train_dataset val_dataset) es t = Inr s'"
    by (auto split: sum.splits)
  let ?r = "(mean_result (train_epoch_loss_avg t), auc_result (train_epoch_roc_auc t),
             mean_result (val_epoch_loss_avg t), auc_result (val_epoch_roc_auc t))"
  from Cons.IH [OF rest] obtain rs where rs: "length rs = length es"
      "stdout s' = stdout t @ concat (map2 report_lines es rs)"
      "train_loss_results s' = train_loss_results t @ map fst rs"
      "train_roc_auc_results s' = train_roc_auc_results t @ map (fst \<circ> snd) rs"
      "val_loss_results s' = val_loss_results t @ map (fst \<circ> snd \<circ> snd) rs"
      "val_roc_auc_results s' = val_roc_auc_results t @ map (snd \<circ> snd \<circ> snd) rs"
      "list_all non_negative_values rs"
    by blast
  with run_epoch_results [OF t] run_epoch_non_negative [OF t]
  have "length (?r # rs) = length (e # es) \<and>
           stdout s' = stdout s @ concat (map2 report_lines (e # es) (?r # rs)) \<and>
           train_loss_results s' = train_loss_results s @ map fst (?r # rs) \<and>
           train_roc_auc_results s' = train_roc_auc_results s @ map (fst \<circ> snd) (?r # rs) \<and>
           val_loss_results s' = val_loss_results s @ map (fst \<circ> snd \<circ> snd) (?r # rs) \<and>
           val_roc_auc_results s' = val_roc_auc_results s @ map (snd \<circ> snd \<circ> snd) (?r # rs) \<and>
           list_all non_negative_values (?r # rs)"
    by (simp add: report_lines_def)
  then show ?case
    by blast
qed

text \<open>
  Claim C9. The line that reports an epoch's training metrics is \<^verbatim>\<open>Epoch\<close>, the
  epoch's number padded with zeros to three digits (for the epochs below 1000; the
  loop's are 0 to 4), \<^verbatim>\<open>: Training loss:\<close>, the loss with three decimals,
  \<^verbatim>\<open>, ROC AUC:\<close>, and a hundred times the ROC AUC with three decimals and a percent
  sign. The three digits denote the epoch; the number printed for the loss is the loss
  rounded to a multiple of 0.001 (ties to the even one), so within 0.0005 of it; the
  number printed before the percent sign is a hundred times the ROC AUC rounded in the
  same way. The line for the validation metrics follows it; it starts with 14 spaces in
  place of the epoch, reads \<^verbatim>\<open>Validation loss:\<close> and \<^verbatim>\<open>, ROC AUC\<close> (no colon),
  and prints its two numbers in the same way. A run of the loop prints these two lines
  for each of its epochs (0 to 4), in order, with the values that it appends to the four
  result lists; none of these values is negative, whatever the model and the data are,
  so every number of the report has the shape \<^verbatim>\<open>X.XXX\<close> with no sign.
\<close>

theorem report_has_the_fixed_format:
  "(epoch < 1000 \<and> 0 \<le> loss_avg \<and> 0 \<le> roc_auc \<longrightarrow>
      (\<exists>n x y. training_line epoch loss_avg roc_auc =
                  ''Epoch '' @ n @ '': Training loss: '' @ x @ '', ROC AUC: '' @ y @ ''%'' \<and>
               length n = 3 \<and> list_all is_digit n \<and> fixed_3 x \<and> fixed_3 y \<and>
               digits_value n = epoch \<and>
               fixed_3_value x = of_int (round_half_even (loss_avg * 1000)) / 1000 \<and>
               \<bar>fixed_3_value x - loss_avg\<bar> \<le> 1 / 2000 \<and>
               fixed_3_value y = of_int (round_half_even (roc_auc * 100 * 1000)) / 1000 \<and>
               \<bar>fixed_3_value y - roc_auc * 100\<bar> \<le> 1 / 2000)) \<and>
   (0 \<le> loss_avg \<and> 0 \<le> roc_auc \<longrightarrow>
      (\<exists>x y. validation_line loss_avg roc_auc =
                ''              Validation loss: '' @ x @ '', ROC AUC '' @ y @ ''%'' \<and>
             fixed_3 x \<and> fixed_3 y \<and>
             fixed_3_value x = of_int (round_half_even (loss_avg * 1000)) / 1000 \<and>
             \<bar>fixed_3_value x - loss_avg\<bar> \<le> 1 / 2000 \<and>
             fixed_3_value y = of_int (round_half_even (roc_auc * 100 * 1000)) / 1000 \<and>
             \<bar>fixed_3_value y - roc_auc * 100\<bar> \<le> 1 / 2000)) \<and>
   (training_loop lib train_dataset val_dataset s = Inr s' \<longrightarrow>
      (\<exists>rs. length rs = num_epochs \<and>
            stdout s' = stdout s @ concat (map2 report_lines [0..<num_epochs] rs) \<and>
            train_loss_results s' = train_loss_results s @ map fst rs \<and>
            train_roc_auc_results s' = train_roc_auc_results s @ map (fst \<circ> snd) rs \<and>
            val_loss_results s' = val_loss_results s @ map (fst \<circ> snd \<circ> snd) rs \<and>
            val_roc_auc_results s' = val_roc_auc_results s @ map (snd \<circ> snd \<circ> snd) rs \<and>
            list_all non_negative_values rs)) \<and>
   list_all (\<lambda>e. e < 1000) [0..<num_epochs]"
proof (intro conjI impI)
  assume a: "epoch < 1000 \<and> 0 \<le> loss_avg \<and> 0 \<le> roc_auc"
  then have pct: "0 \<le> roc_auc * 100"
    by simp
  let ?n = "format_03d epoch" and ?x = "format_3f loss_avg"
    and ?y = "format_3f (roc_auc * 100)"
  from a zero_pad_3 [of epoch] format_3f_fixed_3 [of loss_avg] format_3f_fixed_3 [OF pct]
    format_3f_value [of loss_avg] format_3f_near [of loss_avg]
    format_3f_value [OF pct] format_3f_near [OF pct]
  have "training_line epoch loss_avg roc_auc =
          ''Epoch '' @ ?n @ '': Training loss: '' @ ?x @ '', ROC AUC: '' @ ?y @ ''%'' \<and>
        length ?n = 3 \<and> list_all is_digit ?n \<and> fixed_3 ?x \<and> fixed_3 ?y \<and>
        digits_value ?n = epoch \<and>
        fixed_3_value ?x = of_int (round_half_even (loss_avg * 1000)) / 1000 \<and>
        \<bar>fixed_3_value ?x - loss_avg\<bar> \<le> 1 / 2000 \<and>
        fixed_3_value ?y = of_int (round_half_even (roc_auc * 100 * 1000)) / 1000 \<and>
        \<bar>fixed_3_value ?y - roc_auc * 100\<bar> \<le> 1 / 2000"
    by (simp add: training_line_def format_3pct_def format_03d_value) (simp add: format_03d_def)
  then show "\<exists>n x y. training_line epoch loss_avg roc_auc =
                  ''Epoch '' @ n @ '': Training loss: '' @ x @ '', ROC AUC: '' @ y @ ''%'' \<and>
               length n = 3 \<and> list_all is_digit n \<and> fixed_3 x \<and> fixed_3 y \<and>
               digits_value n = epoch \<and>
               fixed_3_value x = of_int (round_half_even (loss_avg * 1000)) / 1000 \<and>
               \<bar>fixed_3_value x - loss_avg\<bar> \<le> 1 / 2000 \<and>
               fixed_3_value y = of_int (round_half_even (roc_auc * 100 * 1000)) / 1000 \<and>
               \<bar>fixed_3_value y - roc_auc * 100\<bar> \<le> 1 / 2000"
    by (intro exI)
next
  assume a: "0 \<le> loss_avg \<and> 0 \<le> roc_auc"
  then have pct: "0 \<le> roc_auc * 100"
    by simp
  let ?x = "format_3f loss_avg" and ?y = "format_3f (roc_auc * 100)"
  from a format_3f_fixed_3 [of loss_avg] format_3f_fixed_3 [OF pct]
    format_3f_value [of loss_avg] format_3f_near [of loss_avg]
    format_3f_value [OF pct] format_3f_near [OF pct]
  have "validation_line loss_avg roc_auc =
          ''              Validation loss: '' @ ?x @ '', ROC AUC '' @ ?y @ ''%'' \<and>
        fixed_3 ?x \<and> fixed_3 ?y \<and>
        fixed_3_value ?x = of_int (round_half_even (loss_avg * 1000)) / 1000 \<and>
        \<bar>fixed_3_value ?x - loss_avg\<bar> \<le> 1 / 2000 \<and>
        fixed_3_value ?y = of_int (round_half_even (roc_auc * 100 * 1000)) / 1000 \<and>
        \<bar>fixed_3_value ?y - roc_auc * 100\<bar> \<le> 1 / 2000"
    by (simp add: validation_line_def format_3pct_def)
  then show "\<exists>x y. validation_line loss_avg roc_auc =
                ''              Validation loss: '' @ x @ '', ROC AUC '' @ y @ ''%'' \<and>
             fixed_3 x \<and> fixed_3 y \<and>
             fixed_3_value x = of_int (round_half_even (loss_avg * 1000)) / 1000 \<and>
             \<bar>fixed_3_value x - loss_avg\<bar> \<le> 1 / 2000 \<and>
             fixed_3_value y = of_int (round_half_even (roc_auc * 100 * 1000)) / 1000 \<and>
             \<bar>fixed_3_value y - roc_auc * 100\<bar> \<le> 1 / 2000"
    by (intro exI)
next
  assume "training_loop lib train_dataset val_dataset s = Inr s'"
  then have "for_each (run_epoch lib train_dataset val_dataset) [0..<num_epochs] s = Inr s'"
    by (simp only: training_loop_def)
  from epochs_report_values [OF this]
  show "\<exists>rs. length rs = num_epochs \<and>
            stdout s' = stdout s @ concat (map2 report_lines [0..<num_epochs] rs) \<and>
            train_loss_results s' = train_loss_results s @ map fst rs \<and>
            train_roc_auc_results s' = train_roc_auc_results s @ map (fst \<circ> snd) rs \<and>
            val_loss_results s' = val_loss_results s @ map (fst \<circ> snd \<circ> snd) rs \<and>
            val_roc_auc_results s' = val_roc_auc_results s @ map (snd \<circ> snd \<circ> snd) rs \<and>
            list_all non_negative_values rs"
    by simp
next
  show "list_all (\<lambda>e. e < 1000) [0..<num_epochs]"
    by (simp add: list_all_iff num_epochs_def)
qed

lemma replicate_numeral: "replicate (numeral k) x = x # replicate (pred_numeral k) x"
  by (simp add: numeral_eq_Suc)

lemmas format_eval = training_line_def validation_line_def format_03d_def format_3pct_def
  format_3f_def round_half_even_def zero_pad_def decimal.simps digit_char_def Let_def
  replicate_numeral

lemma scenario_loop:
  "\<exists>s'. training_loop toy_tf [two_samples] one_batch fresh_notebook = Inr s'"
  using two_samples_well_formed
  by (intro training_loop_returns) (simp_all add: fresh_notebook_def one_batch_def)

theorem report_has_the_fixed_format_witness:
  "training_line 0 2.830 0.83346 = ''Epoch 000: Training loss: 2.830, ROC AUC: 83.346%'' \<and>
   validation_line 2.830 0.83346 = ''              Validation loss: 2.830, ROC AUC 83.346%'' \<and>
   (\<exists>n x y. ''Epoch 000: Training loss: 2.830, ROC AUC: 83.346%'' =
               ''Epoch '' @ n @ '': Training loss: '' @ x @ '', ROC AUC: '' @ y @ ''%'' \<and>
            length n = 3 \<and> list_all is_digit n \<and> fixed_3 x \<and> fixed_3 y \<and>
            digits_value n = 0 \<and>
            \<bar>fixed_3_value x - 2.830\<bar> \<le> 1 / 2000 \<and>
            \<bar>fixed_3_value y - 0.83346 * 100\<bar> \<le> 1 / 2000) \<and>
   (\<exists>x y. ''              Validation loss: 2.830, ROC AUC 83.346%'' =
             ''              Validation loss: '' @ x @ '', ROC AUC '' @ y @ ''%'' \<and>
          fixed_3 x \<and> fixed_3 y \<and>
          \<bar>fixed_3_value x - 2.830\<bar> \<le> 1 / 2000 \<and>
          \<bar>fixed_3_value y - 0.83346 * 100\<bar> \<le> 1 / 2000) \<and>
   digits_value ''004'' = 4 \<and> fixed_3_value ''83.346'' = 83.346 \<and>
   (\<exists>s' rs. training_loop toy_tf [two_samples] one_batch fresh_notebook = Inr s' \<and>
            length rs = 5 \<and> stdout s' = concat (map2 report_lines [0..<5] rs) \<and>
            list_all non_negative_values rs)"
proof -
  have lines:
    "training_line 0 2.830 0.83346 = ''Epoch 000: Training loss: 2.830, ROC AUC: 83.346%''"
    "validation_line 2.830 0.83346 = ''              Validation loss: 2.830, ROC AUC 83.346%''"
    by (simp_all add: format_eval)
  have readings: "digits_value ''004'' = 4" "fixed_3_value ''83.346'' = 83.346"
    by (simp_all add: fixed_3_value_def digits_value_def digit_value_def)
  from scenario_loop obtain s'
    where s': "training_loop toy_tf [two_samples] one_batch fresh_notebook = Inr s'"
    by blast
  note inst = report_has_the_fixed_format
    [where epoch = 0 and loss_avg = "2.830" and roc_auc = "0.83346" and lib = toy_tf
      and train_dataset = "[two_samples]" and val_dataset = one_batch
      and s = fresh_notebook and s' = s']
  have hyp: "(0::nat) < 1000 \<and> (0::real) \<le> 2.830 \<and> (0::real) \<le> 0.83346"
    by simp
  have hyp': "(0::real) \<le> 2.830 \<and> (0::real) \<le> 0.83346"
    by simp
  have training: "\<exists>n x y. ''Epoch 000: Training loss: 2.830, ROC AUC: 83.346%'' =
               ''Epoch '' @ n @ '': Training loss: '' @ x @ '', ROC AUC: '' @ y @ ''%'' \<and>
            length n = 3 \<and> list_all is_digit n \<and> fixed_3 x \<and> fixed_3 y \<and>
            digits_value n = 0 \<and>
            \<bar>fixed_3_value x - 2.830\<bar> \<le> 1 / 2000 \<and>
            \<bar>fixed_3_value y - 0.83346 * 100\<bar> \<le> 1 / 2000"
    using inst [THEN conjunct1, THEN mp, OF hyp] unfolding lines by blast
  have validation: "\<exists>x y. ''              Validation loss: 2.830, ROC AUC 83.346%'' =
             ''              Validation loss: '' @ x @ '', ROC AUC '' @ y @ ''%'' \<and>
          fixed_3 x \<and> fixed_3 y \<and>
          \<bar>fixed_3_value x - 2.830\<bar> \<le> 1 / 2000 \<and>
          \<bar>fixed_3_value y - 0.83346 * 100\<bar> \<le> 1 / 2000"
    using inst [THEN conjunct2, THEN conjunct1, THEN mp, OF hyp'] unfolding lines by blast
  from inst [THEN conjunct2, THEN conjunct2, THEN conjunct1, THEN mp, OF s']
  obtain rs where "length rs = num_epochs"
    "stdout s' = stdout fresh_notebook @ concat (map2 report_lines [0..<num_epochs] rs)"
    "list_all non_negative_values rs"
    by blast
  then have "length rs = 5 \<and> stdout s' = concat (map2 report_lines [0..<5] rs) \<and>
      list_all non_negative_values rs"
    by (simp add: fresh_notebook_def num_epochs_def)
  with s' lines readings training validation show ?thesis
    by blast
qed

subsection \<open>The loss of the uniform distribution\<close>

lemma exp_four: "exp (4::real) \<le> 81"
proof -
  have "exp (4::real) = exp 1 ^ 4"
    using exp_of_nat_mult [of 4 "1::real"] by simp
  also have "\<dots> \<le> 3 ^ 4"
    by (intro power_mono exp_le) simp
  finally show ?thesis by simp
qed

lemma exp_taylor_upper:
  fixes x :: real
  assumes "0 \<le> x" "x \<le> 4"
  shows "exp x \<le> (\<Sum>m<n. x ^ m / fact m) + 81 * x ^ n / fact n"
proof -
  from Maclaurin_exp_le [of x n] obtain t
    where t: "\<bar>t\<bar> \<le> \<bar>x\<bar>" "exp x = (\<Sum>m<n. x ^ m / fact m) + (exp t / fact n) * x ^ n"
    by blast
  from t(1) assms have "t \<le> 4"
    by linarith
  then have "exp t \<le> exp 4"
    by simp
  with exp_four have "exp t \<le> 81"
    by linarith
  then have "(exp t / fact n) * x ^ n \<le> (81 / fact n) * x ^ n"
    using assms(1) by (intro mult_right_mono divide_right_mono) simp_all
  with t(2) show ?thesis
    by simp
qed

lemma exp_taylor_lower:
  fixes x :: real
  assumes "0 \<le> x"
  shows "(\<Sum>m<n. x ^ m / fact m) \<le> exp x"
proof -
  from Maclaurin_exp_le [of x n] obtain t
    where t: "exp x = (\<Sum>m<n. x ^ m / fact m) + (exp t / fact n) * x ^ n"
    by blast
  have "0 \<le> (exp t / fact n) * x ^ n"
    using assms by simp
  with t show ?thesis
    by simp
qed

lemma ln_46_bounds: "38285 / 10000 < ln (46::real) \<and> ln (46::real) < 38295 / 10000"
proof
  have "(\<Sum>m<20. (38285 / 10000 :: real) ^ m / fact m) + 81 * (38285 / 10000) ^ 20 / fact 20 < 46"
    by (simp add: lessThan_nat_numeral lessThan_Suc fact_numeral power_divide)
  with exp_taylor_upper [of "38285 / 10000" 20] have "exp (38285 / 10000 :: real) < 46"
    by simp
  then have "ln (exp (38285 / 10000 :: real)) < ln 46"
    by (subst ln_less_cancel_iff) simp_all
  then show "38285 / 10000 < ln (46::real)"
    by simp
next
  have "46 < (\<Sum>m<20. (38295 / 10000 :: real) ^ m / fact m)"
    by (simp add: lessThan_nat_numeral lessThan_Suc fact_numeral power_divide)
  with exp_taylor_lower [of "38295 / 10000" 20] have "46 < exp (38295 / 10000 :: real)"
    by simp
  then have "ln 46 < ln (exp (38295 / 10000 :: real))"
    by (subst ln_less_cancel_iff) simp_all
  then show "ln (46::real) < 38295 / 10000"
    by simp
qed

lemma uniform_logits:
  "map (\<lambda>p. ln (clip_by_value p epsilon (1 - epsilon))) uniform_probs =
     replicate 46 (ln (1 / 46))"
  by (simp add: uniform_probs_def clip_by_value_def epsilon_def)

lemma sample_loss_uniform:
  assumes "l < 46"
  shows "sample_loss l uniform_probs = Inr (- ln (1 / 46))"
proof -
  have "sum_list (map exp (replicate 46 (ln (1 / 46 :: real)))) = 1"
    by (simp add: sum_list_replicate)
  with assms show ?thesis
    by (simp add: sample_loss_def uniform_logits Let_def) (simp add: uniform_probs_def)
qed

lemma loss_uniform: "loss [0, 1] [uniform_probs, uniform_probs] = Inr (- ln (1 / 46))"
  by (simp add: loss_def SparseCategoricalCrossentropy_def sample_loss_uniform div_no_nan_def)

lemma train_step_loss:
  assumes "train_step lib (inputs, labels) s = Inr s'"
    and "loss labels (call (model s) (trainable_variables (model s)) inputs) = Inr v"
  shows "train_epoch_loss_avg s' = mean_update_state (train_epoch_loss_avg s) [v]"
  using assms
  by (auto simp add: train_step_def grad_def Let_def split: prod.splits sum.splits)

text \<open>
  Claim C6. For the uniform distribution over the 46 classes, the loss of a sample with
  label 0 and the loss of a sample with label 1 are both \<open>- ln (1 / 46)\<close>, and so is the
  loss of the batch of the two. Fed with that one value, the mean accumulator returns
  it. So a training phase of one batch of two samples with the labels 0 and 1, run with
  a model that returns the uniform distribution, ends with the mean training loss
  \<open>- ln (1 / 46)\<close>, whatever the optimizer does. The number is 3.829 when rounded to
  three decimals.
\<close>

theorem uniform_loss_is_ln_46:
  "sample_loss 0 uniform_probs = Inr (- ln (1 / 46)) \<and>
   sample_loss 1 uniform_probs = Inr (- ln (1 / 46)) \<and>
   loss [0, 1] [uniform_probs, uniform_probs] = Inr (- ln (1 / 46)) \<and>
   mean_result (mean_update_state Mean [- ln (1 / 46)]) = - ln (1 / 46) \<and>
   (\<exists>s'. training_phase lib [two_samples] (new_metrics fresh_notebook) = Inr s' \<and>
         mean_result (train_epoch_loss_avg s') = - ln (1 / 46)) \<and>
   \<bar>- ln (1 / 46 :: real) - 3.829\<bar> < 0.0005"
proof (intro conjI)
  show "sample_loss 0 uniform_probs = Inr (- ln (1 / 46))"
    and "sample_loss 1 uniform_probs = Inr (- ln (1 / 46))"
    by (simp_all add: sample_loss_uniform)
  show "loss [0, 1] [uniform_probs, uniform_probs] = Inr (- ln (1 / 46))"
    by (rule loss_uniform)
  show single: "mean_result (mean_update_state Mean [- ln (1 / 46)]) = - ln (1 / 46)"
    by (simp add: mean_result_def mean_update_state_def Mean_def div_no_nan_def)
  show "\<exists>s'. training_phase lib [two_samples] (new_metrics fresh_notebook) = Inr s' \<and>
         mean_result (train_epoch_loss_avg s') = - ln (1 / 46)"
  proof -
    let ?s = "new_metrics fresh_notebook"
    have m: "model ?s = uniform_model" "train_epoch_loss_avg ?s = Mean"
      by (simp_all add: new_metrics_def fresh_notebook_def)
    with two_samples_well_formed have "well_formed_batch (call (model ?s)) two_samples"
      by simp
    from train_step_returns [OF this] obtain s'
      where s': "train_step lib ([replicate 100 7, replicate 100 8], [0, 1]) ?s = Inr s'"
      by (auto simp add: two_samples_def)
    have "loss [0, 1] (call (model ?s) (trainable_variables (model ?s))
            [replicate 100 7, replicate 100 8]) = Inr (- ln (1 / 46))"
      using loss_uniform by (simp add: m uniform_model_def)
    from train_step_loss [OF s' this] single
    have "mean_result (train_epoch_loss_avg s') = - ln (1 / 46)"
      by (simp add: m)
    with s' show ?thesis
      by (simp add: training_phase_def two_samples_def)
  qed
  have eq: "- ln (1 / 46 :: real) = ln 46"
    by (simp add: ln_div)
  show "\<bar>- ln (1 / 46 :: real) - 3.829\<bar> < 0.0005"
    unfolding eq abs_less_iff using ln_46_bounds by simp
qed

subsection \<open>The area under the ROC curve\<close>

lemma length_thresholds: "length thresholds = num_thresholds"
  by (simp add: thresholds_def num_thresholds_def)

lemma map2_same: "map2 f (map g xs) (map h xs) = map (\<lambda>x. f (g x) (h x)) xs"
  by (induction xs) simp_all

lemma map2_add_zeros:
  "length cs = n \<Longrightarrow> map2 (+) (replicate n (0::real)) cs = cs"
  by (induction cs arbitrary: n) auto

lemma map_constant: "(\<And>x. x \<in> set xs \<Longrightarrow> f x = c) \<Longrightarrow> map f xs = replicate (length xs) c"
  by (induction xs) simp_all

text \<open>The point of the ROC curve at a threshold, from the counts of one batch.\<close>

lemma first_update_result:
  assumes "auc_update_state AUC y_true y_pred = Inr a"
  shows "auc_result a =
     (let x = map (\<lambda>th. div_no_nan (count_entries False True th (concat y_true) (concat y_pred))
                     (count_entries False True th (concat y_true) (concat y_pred)
                      + count_entries False False th (concat y_true) (concat y_pred)))
                thresholds;
          y = map (\<lambda>th. div_no_nan (count_entries True True th (concat y_true) (concat y_pred))
                     (count_entries True True th (concat y_true) (concat y_pred)
                      + count_entries True False th (concat y_true) (concat y_pred)))
                thresholds
      in sum_list (map2 (*) (map2 (-) (take (num_thresholds - 1) x) (drop 1 x))
                    (map2 (\<lambda>u v. (u + v) / 2) (take (num_thresholds - 1) y) (drop 1 y))))"
proof -
  from assms have a: "a =
     \<lparr>true_positives =
        map (\<lambda>th. count_entries True True th (concat y_true) (concat y_pred)) thresholds,
      true_negatives =
        map (\<lambda>th. count_entries False False th (concat y_true) (concat y_pred)) thresholds,
      false_positives =
        map (\<lambda>th. count_entries False True th (concat y_true) (concat y_pred)) thresholds,
      false_negatives =
        map (\<lambda>th. count_entries True False th (concat y_true) (concat y_pred)) thresholds\<rparr>"
    by (simp add: auc_update_state_def AUC_def map2_add_zeros length_thresholds
        split: if_splits)
  show ?thesis
    by (simp add: a auc_result_def Let_def map2_same)
qed

lemma count_entries_same:
  "count_entries lp pp th t t =
     real (length (filter (\<lambda>l. (l \<noteq> 0) = lp \<and> (th < l) = pp) t))"
  by (simp add: count_entries_def zip_same_conv_map filter_map comp_def)

lemma count_entries_binary:
  assumes "list_all (\<lambda>v. v = 0 \<or> v = 1) t"
  shows "th < 0 \<Longrightarrow> count_entries lp pp th t t =
           (if pp then real (length (filter (\<lambda>l. (l \<noteq> 0) = lp) t)) else 0)"
    and "0 \<le> th \<Longrightarrow> th < 1 \<Longrightarrow> count_entries lp pp th t t =
           (if lp = pp then real (length (filter (\<lambda>l. (l \<noteq> 0) = lp) t)) else 0)"
    and "1 \<le> th \<Longrightarrow> count_entries lp pp th t t =
           (if pp then 0 else real (length (filter (\<lambda>l. (l \<noteq> 0) = lp) t)))"
proof -
  from assms have b: "\<And>l. l \<in> set t \<Longrightarrow> l = 0 \<or> l = 1"
    by (simp add: list_all_iff)
  show "count_entries lp pp th t t =
           (if pp then real (length (filter (\<lambda>l. (l \<noteq> 0) = lp) t)) else 0)" if "th < 0"
  proof -
    have "filter (\<lambda>l. (l \<noteq> 0) = lp \<and> (th < l) = pp) t =
            filter (\<lambda>l. (l \<noteq> 0) = lp \<and> pp) t"
      using b that by (intro filter_cong) force+
    then show ?thesis
      by (simp add: count_entries_same)
  qed
  show "count_entries lp pp th t t =
           (if lp = pp then real (length (filter (\<lambda>l. (l \<noteq> 0) = lp) t)) else 0)"
    if "0 \<le> th" "th < 1"
  proof -
    have "filter (\<lambda>l. (l \<noteq> 0) = lp \<and> (th < l) = pp) t =
            filter (\<lambda>l. (l \<noteq> 0) = lp \<and> lp = pp) t"
      using b that by (intro filter_cong) force+
    then show ?thesis
      by (simp add: count_entries_same)
  qed
  show "count_entries lp pp th t t =
           (if pp then 0 else real (length (filter (\<lambda>l. (l \<noteq> 0) = lp) t)))" if "1 \<le> th"
  proof -
    have "filter (\<lambda>l. (l \<noteq> 0) = lp \<and> (th < l) = pp) t =
            filter (\<lambda>l. (l \<noteq> 0) = lp \<and> \<not> pp) t"
      using b that by (intro filter_cong) force+
    then show ?thesis
      by (simp add: count_entries_same)
  qed
qed

lemma thresholds_split:
  "\<exists>mid. thresholds = [0 - epsilon] @ mid @ [1 + epsilon] \<and> length mid = 198 \<and>
         (\<forall>th\<in>set mid. 0 \<le> th \<and> th < 1)"
proof -
  let ?mid = "map (\<lambda>i. (real i + 1) * 1 / real (num_thresholds - 1)) [0..<num_thresholds - 2]"
  have "\<forall>th\<in>set ?mid. 0 \<le> th \<and> th < 1"
    by (auto simp add: num_thresholds_def)
  then show ?thesis
    by (intro exI [of _ ?mid]) (simp add: thresholds_def num_thresholds_def)
qed

lemma zero_products: "sum_list (map2 (*) (replicate n 0) zs) = (0::real)"
proof (induction n arbitrary: zs)
  case 0
  then show ?case by simp
next
  case (Suc n)
  then show ?case by (cases zs) simp_all
qed

lemma trapezoid_general:
  "sum_list (map2 (*)
       (map2 (-) (take (Suc (Suc k)) ([1] @ replicate (Suc k) 0 @ [0::real]))
                 (drop 1 ([1] @ replicate (Suc k) 0 @ [0])))
       (map2 (\<lambda>u v. (u + v) / 2)
                 (take (Suc (Suc k)) ([1] @ replicate (Suc k) 1 @ [0::real]))
                 (drop 1 ([1] @ replicate (Suc k) 1 @ [0])))) = 1"
proof -
  have "take (Suc (Suc k)) ([1] @ replicate (Suc k) 0 @ [0::real]) = 1 # replicate (Suc k) 0"
    by simp
  moreover have "drop 1 ([1] @ replicate (Suc k) 0 @ [0::real]) = 0 # replicate (Suc k) 0"
    by (simp add: replicate_append_same)
  ultimately have x: "map2 (-) (take (Suc (Suc k)) ([1] @ replicate (Suc k) 0 @ [0::real]))
                 (drop 1 ([1] @ replicate (Suc k) 0 @ [0])) = 1 # replicate (Suc k) 0"
    by (simp only: zip_Cons_Cons list.map prod.case zip_replicate map_replicate) simp
  define h where "h = map2 (\<lambda>u v. (u + v) / 2)
                 (take (Suc (Suc k)) ([1] @ replicate (Suc k) 1 @ [0::real]))
                 (drop 1 ([1] @ replicate (Suc k) 1 @ [0]))"
  have "\<exists>hs. h = 1 # hs"
    by (simp add: h_def)
  then obtain hs where hs: "h = 1 # hs"
    by blast
  have "sum_list (map2 (*) (1 # replicate (Suc k) 0) (1 # hs)) = 1"
    using zero_products [of "Suc k" hs] by simp
  then show ?thesis
    unfolding x h_def [symmetric] hs .
qed

lemma trapezoid_step:
  "sum_list (map2 (*) (map2 (-) (take (num_thresholds - 1) ([1] @ replicate 198 0 @ [0::real]))
                                (drop 1 ([1] @ replicate 198 0 @ [0])))
                      (map2 (\<lambda>u v. (u + v) / 2)
                         (take (num_thresholds - 1) ([1] @ replicate 198 1 @ [0::real]))
                         (drop 1 ([1] @ replicate 198 1 @ [0])))) = 1"
proof -
  have "num_thresholds - 1 = Suc (Suc 197)" "(198::nat) = Suc 197"
    by (simp_all add: num_thresholds_def)
  then show ?thesis
    by (simp only: trapezoid_general)
qed

lemma auc_of_binary_labels:
  assumes bin: "list_all (\<lambda>v. v = 0 \<or> v = 1) (concat y)"
    and pos: "\<exists>l\<in>set (concat y). l \<noteq> 0"
    and neg: "\<exists>l\<in>set (concat y). l = 0"
  shows "\<exists>a. auc_update_state AUC y y = Inr a \<and> auc_result a = 1"
proof -
  let ?t = "concat y"
  let ?P = "real (length (filter (\<lambda>l. (l \<noteq> 0) = True) ?t))"
  let ?N = "real (length (filter (\<lambda>l. (l \<noteq> 0) = False) ?t))"
  from bin have "list_all (\<lambda>p. 0 \<le> p \<and> p \<le> 1) ?t"
    by (rule list.pred_mono_strong) auto
  then obtain a where a: "auc_update_state AUC y y = Inr a"
    by (auto simp add: auc_update_state_def)
  from pos have "filter (\<lambda>l. (l \<noteq> 0) = True) ?t \<noteq> []"
    by (simp add: filter_empty_conv)
  then have P: "0 < ?P"
    by simp
  from neg have "filter (\<lambda>l. (l \<noteq> 0) = False) ?t \<noteq> []"
    by (simp add: filter_empty_conv)
  then have N: "0 < ?N"
    by simp
  let ?x = "\<lambda>th. div_no_nan (count_entries False True th ?t ?t)
                  (count_entries False True th ?t ?t + count_entries False False th ?t ?t)"
  let ?y = "\<lambda>th. div_no_nan (count_entries True True th ?t ?t)
                  (count_entries True True th ?t ?t + count_entries True False th ?t ?t)"
  have low: "?x th = 1 \<and> ?y th = 1" if "th < 0" for th
    using that P N by (simp add: count_entries_binary(1) [OF bin] div_no_nan_def)
  have mid: "?x th = 0 \<and> ?y th = 1" if "0 \<le> th" "th < 1" for th
    using that P N by (simp add: count_entries_binary(2) [OF bin] div_no_nan_def)
  have high: "?x th = 0 \<and> ?y th = 0" if "1 \<le> th" for th
    using that P N by (simp add: count_entries_binary(3) [OF bin] div_no_nan_def)
  from thresholds_split obtain ms
    where ths: "thresholds = [0 - epsilon] @ ms @ [1 + epsilon]" and len: "length ms = 198"
      and ms: "\<forall>th\<in>set ms. 0 \<le> th \<and> th < 1"
    by blast
  have eps: "0 - epsilon < 0" "1 \<le> 1 + epsilon"
    by (simp_all add: epsilon_def)
  have "map ?x ms = replicate (length ms) 0"
    using ms mid by (intro map_constant) blast
  with low [OF eps(1)] high [OF eps(2)] len
  have x: "map ?x thresholds = [1] @ replicate 198 0 @ [0]"
    by (simp add: ths)
  have "map ?y ms = replicate (length ms) 1"
    using ms mid by (intro map_constant) blast
  with low [OF eps(1)] high [OF eps(2)] len
  have y: "map ?y thresholds = [1] @ replicate 198 1 @ [0]"
    by (simp add: ths)
  have "auc_result a = 1"
    unfolding first_update_result [OF a] Let_def x y by (rule trapezoid_step)
  with a show ?thesis
    by blast
qed

lemma sum_list_constant:
  "(\<And>v. v \<in> set r \<Longrightarrow> v = c) \<Longrightarrow> sum_list r = real (length r) * c"
  by (induction r) (simp_all add: algebra_simps)

lemma one_hot_row_entries:
  assumes "one_hot_row r"
  shows "\<exists>v\<in>set r. v \<noteq> 0" and "2 \<le> length r \<Longrightarrow> \<exists>v\<in>set r. v = 0"
proof -
  from assms have bin: "\<forall>v\<in>set r. v = 0 \<or> v = 1" and one: "sum_list r = 1"
    by (simp_all add: one_hot_row_def list_all_iff)
  show "\<exists>v\<in>set r. v \<noteq> 0"
  proof (rule ccontr)
    assume "\<not> (\<exists>v\<in>set r. v \<noteq> 0)"
    then have "sum_list r = real (length r) * 0"
      by (intro sum_list_constant) blast
    with one show False
      by simp
  qed
  show "\<exists>v\<in>set r. v = 0" if "2 \<le> length r"
  proof (rule ccontr)
    assume "\<not> (\<exists>v\<in>set r. v = 0)"
    with bin have "sum_list r = real (length r) * 1"
      by (intro sum_list_constant) blast
    with one that show False
      by simp
  qed
qed

lemma separable_binary:
  assumes len: "length t = length p"
    and bt: "list_all (\<lambda>v. v = 0 \<or> v = 1) t" and bp: "list_all (\<lambda>v. v = 0 \<or> v = 1) p"
    and pos: "\<exists>l\<in>set t. l \<noteq> 0" and neg: "\<exists>l\<in>set t. l = 0"
    and sep: "perfectly_separable t p"
  shows "p = t"
proof (rule nth_equalityI)
  show "length p = length t"
    using len by simp
  fix i
  assume "i < length p"
  with len have i: "i < length t" "i < length p"
    by simp_all
  from sep have above: "q' < q"
    if "(l, q) \<in> set (zip t p)" "l \<noteq> 0" "(l', q') \<in> set (zip t p)" "l' = 0" for l q l' q'
    using that by (fastforce simp add: perfectly_separable_def Let_def list_all_iff)
  from bp have binary: "\<And>j. j < length p \<Longrightarrow> p ! j = 0 \<or> p ! j = 1"
    by (simp add: list_all_length)
  from bt i have ti: "t ! i = 0 \<or> t ! i = 1"
    by (simp add: list_all_length)
  from i len have zi: "(t ! i, p ! i) \<in> set (zip t p)"
    by (metis in_set_zip fst_conv snd_conv)
  show "p ! i = t ! i"
  proof (cases "t ! i = 0")
    case True
    from pos obtain j where j: "j < length t" "t ! j \<noteq> 0"
      by (auto simp add: in_set_conv_nth)
    with len have "(t ! j, p ! j) \<in> set (zip t p)"
      by (metis in_set_zip fst_conv snd_conv)
    from above [OF this j(2) zi True] binary [of i] binary [of j] i j len True
    show ?thesis
      by auto
  next
    case False
    from neg obtain j where j: "j < length t" "t ! j = 0"
      by (auto simp add: in_set_conv_nth)
    with len have "(t ! j, p ! j) \<in> set (zip t p)"
      by (metis in_set_zip fst_conv snd_conv)
    from above [OF zi False this j(2)] binary [of i] binary [of j] i j len False ti
    show ?thesis
      by auto
  qed
qed

lemma concat_binary:
  "list_all one_hot_row rows \<Longrightarrow> list_all (\<lambda>v. v = 0 \<or> v = 1) (concat rows)"
  by (induction rows) (simp_all add: one_hot_row_def)

lemma length_concat_rows:
  "map length xs = map length ys \<Longrightarrow> length (concat xs) = length (concat ys)"
  by (simp add: length_concat)

lemma rows_equal:
  assumes "map length xs = map length ys" and "concat xs = concat ys"
  shows "xs = ys"
proof (rule concat_injective [OF assms(2)])
  from assms(1) show len: "length xs = length ys"
    by (rule map_eq_imp_length_eq)
  have "length (xs ! i) = length (ys ! i)" if "i < length xs" for i
    using that len arg_cong [OF assms(1), of "\<lambda>l. l ! i"] by simp
  with len show "\<forall>(x, y)\<in>set (zip xs ys). length x = length y"
    by (auto simp add: in_set_zip)
qed

lemma sum_list_indicator:
  "l < n \<Longrightarrow> sum_list (map (\<lambda>j. if j = l then 1 else 0) [0..<n]) = (1::real)"
proof (induction n)
  case 0
  then show ?case by simp
next
  case (Suc n)
  show ?case
  proof (cases "l = n")
    case True
    have "sum_list (map (\<lambda>j. if j = n then 1 else 0) [0..<n]) = (0::real)"
      using sum_list_constant [of "map (\<lambda>j. if j = n then 1 else 0) [0..<n]" 0] by auto
    with True show ?thesis
      by simp
  next
    case False
    with Suc show ?thesis
      by simp
  qed
qed

lemma to_categorical_one_hot:
  assumes "list_all (\<lambda>l. l < n) labels"
  shows "\<exists>y. to_categorical labels n = Inr y \<and> length y = length labels \<and>
           list_all (\<lambda>r. length r = n) y \<and> list_all one_hot_row y"
proof -
  have "one_hot_row (map (\<lambda>j. if j = l then 1 else 0) [0..<n])" if "l < n" for l
    using that by (simp add: one_hot_row_def sum_list_indicator list_all_iff)
  with assms show ?thesis
    by (simp add: to_categorical_def list_all_iff)
qed

lemma separable_same:
  assumes "list_all (\<lambda>v. v = 0 \<or> v = 1) t"
  shows "perfectly_separable t t"
proof -
  from assms have "\<And>v. v \<in> set t \<Longrightarrow> v = 0 \<or> v = 1"
    by (simp add: list_all_iff)
  then show ?thesis
    by (fastforce simp add: perfectly_separable_def Let_def list_all_iff zip_same_conv_map)
qed

lemma one_hot_batch_entries:
  assumes "rows \<noteq> []" and "list_all (\<lambda>r. 2 \<le> length r) rows" and "list_all one_hot_row rows"
  shows "\<exists>l\<in>set (concat rows). l \<noteq> 0" and "\<exists>l\<in>set (concat rows). l = 0"
proof -
  from assms obtain r where r: "r \<in> set rows" "2 \<le> length r" "one_hot_row r"
    by (cases rows) auto
  from one_hot_row_entries [OF r(3)] r(1,2)
  show "\<exists>l\<in>set (concat rows). l \<noteq> 0" and "\<exists>l\<in>set (concat rows). l = 0"
    by auto
qed

text \<open>
  Claim C7. Fed with one batch of one-hot labels and one-hot predictions that is
  perfectly separable, a new ROC AUC accumulator has the result 1 exactly. The batch is
  not empty and has two classes or more; otherwise there is no positive or no negative
  label to separate. The notebook's labels are such rows,
  \<^verbatim>\<open>to_categorical(labels, num_classes=46)\<close>, and predictions that are one-hot and
  separate them are these rows again.
\<close>

theorem separable_one_hot_auc_is_one:
  "(y_true \<noteq> [] \<and> map length y_true = map length y_pred \<and>
    list_all (\<lambda>r. 2 \<le> length r) y_true \<and>
    list_all one_hot_row y_true \<and> list_all one_hot_row y_pred \<and>
    perfectly_separable (concat y_true) (concat y_pred) \<longrightarrow>
      (\<exists>a. auc_update_state AUC y_true y_pred = Inr a \<and> auc_result a = 1)) \<and>
   (labels \<noteq> [] \<and> list_all (\<lambda>l. l < 46) labels \<longrightarrow>
      (\<exists>y a. to_categorical labels 46 = Inr y \<and> list_all one_hot_row y \<and>
             perfectly_separable (concat y) (concat y) \<and>
             auc_update_state AUC y y = Inr a \<and> auc_result a = 1))"
proof (intro conjI impI)
  assume "y_true \<noteq> [] \<and> map length y_true = map length y_pred \<and>
    list_all (\<lambda>r. 2 \<le> length r) y_true \<and>
    list_all one_hot_row y_true \<and> list_all one_hot_row y_pred \<and>
    perfectly_separable (concat y_true) (concat y_pred)"
  then have rows: "y_true \<noteq> []" "list_all (\<lambda>r. 2 \<le> length r) y_true"
      "list_all one_hot_row y_true"
    and pred: "list_all one_hot_row y_pred"
    and shape: "map length y_true = map length y_pred"
    and sep: "perfectly_separable (concat y_true) (concat y_pred)"
    by blast+
  note bin = concat_binary [OF rows(3)] concat_binary [OF pred]
  note entries = one_hot_batch_entries [OF rows]
  have "concat y_pred = concat y_true"
    by (rule separable_binary [OF length_concat_rows [OF shape] bin entries sep])
  with shape [symmetric] have "y_pred = y_true"
    by (rule rows_equal)
  then show "\<exists>a. auc_update_state AUC y_true y_pred = Inr a \<and> auc_result a = 1"
    using auc_of_binary_labels [OF bin(1) entries] by (simp only:)
next
  assume "labels \<noteq> [] \<and> list_all (\<lambda>l. l < 46) labels"
  then have labels: "labels \<noteq> []" "list_all (\<lambda>l. l < 46) labels"
    by blast+
  from to_categorical_one_hot [OF labels(2)] obtain y
    where y: "to_categorical labels 46 = Inr y" "length y = length labels"
      "list_all (\<lambda>r. length r = 46) y" "list_all one_hot_row y"
    by blast
  note bin = concat_binary [OF y(4)]
  from y(3) have wide: "list_all (\<lambda>r. 2 \<le> length r) y"
    by (rule list.pred_mono_strong) simp
  from labels(1) y(2) have "y \<noteq> []"
    by auto
  note entries = one_hot_batch_entries [OF this wide y(4)]
  from auc_of_binary_labels [OF bin entries] obtain a
    where "auc_update_state AUC y y = Inr a" "auc_result a = 1"
    by blast
  with separable_same [OF bin] y(1,4)
  show "\<exists>y a. to_categorical labels 46 = Inr y \<and> list_all one_hot_row y \<and>
             perfectly_separable (concat y) (concat y) \<and>
             auc_update_state AUC y y = Inr a \<and> auc_result a = 1"
    by blast
qed

theorem separable_one_hot_auc_is_one_witness:
  "(\<exists>a. auc_update_state AUC [[1, 0, 0], [0, 1, 0]] [[1, 0, 0], [0, 1, 0]] = Inr a \<and>
        auc_result a = 1) \<and>
   (\<exists>y a. to_categorical [0, 1] 46 = Inr y \<and> auc_update_state AUC y y = Inr a \<and>
          auc_result a = 1)"
proof -
  have h1: "[[1, 0, 0], [0, 1, 0::real]] \<noteq> [] \<and>
    map length [[1, 0, 0], [0, 1, 0::real]] = map length [[1, 0, 0], [0, 1, 0::real]] \<and>
    list_all (\<lambda>r. 2 \<le> length r) [[1, 0, 0], [0, 1, 0::real]] \<and>
    list_all one_hot_row [[1, 0, 0], [0, 1, 0]] \<and> list_all one_hot_row [[1, 0, 0], [0, 1, 0]] \<and>
    perfectly_separable (concat [[1, 0, 0], [0, 1, 0]]) (concat [[1, 0, 0], [0, 1, 0]])"
    by (simp add: one_hot_row_def perfectly_separable_def)
  have h2: "[0, 1::nat] \<noteq> [] \<and> list_all (\<lambda>l. l < 46) [0, 1::nat]"
    by simp
  note inst = separable_one_hot_auc_is_one
    [where y_true = "[[1, 0, 0], [0, 1, 0]]" and y_pred = "[[1, 0, 0], [0, 1, 0]]"
      and labels = "[0, 1]"]
  from inst [THEN conjunct1, THEN mp, OF h1] inst [THEN conjunct2, THEN mp, OF h2]
  show ?thesis
    by blast
qed

subsection \<open>The running mean\<close>

text \<open>
  What the mean accumulator holds after any number of calls: the sum and the number of all
  the values that it was fed.
\<close>

lemma mean_fed_in_groups:
  "foldl mean_update_state m groups =
     m\<lparr>m_total := m_total m + sum_list (concat groups),
       m_count := m_count m + real (length (concat groups))\<rparr>"
  by (induction groups arbitrary: m) (simp_all add: mean_update_state_def add.assoc)

lemma mean_of_groups:
  "mean_result (foldl mean_update_state Mean groups) =
     div_no_nan (sum_list (concat groups)) (real (length (concat groups)))"
  by (simp add: mean_fed_in_groups mean_result_def Mean_def)

lemma mean_of_three:
  "concat groups = [a, b, c] \<Longrightarrow>
     mean_result (foldl mean_update_state Mean groups) = (a + b + c) / 3"
  by (simp add: mean_of_groups div_no_nan_def)

text \<open>
  Claim C4. The mean accumulator, made empty and fed values in any number of calls,
  returns the sum of all the values it was fed divided by their number (0 if it was fed
  none): for the values \<open>a\<close>, \<open>b\<close>, \<open>c\<close> that is \<open>(a + b + c) / 3\<close>, however they were
  grouped into calls, and two groupings of the same sequence of values give the same
  result. The training loop feeds it the loss of each batch in a call of its own: after
  an epoch over three batches the mean is a third of the sum of the three losses, each
  taken at the weights that the model had when its batch came. (Numbers are exact reals;
  the rounding of \<^verbatim>\<open>float32\<close> sums, which depends on the order of the additions, is
  outside the model.)
\<close>

theorem running_mean_ignores_grouping:
  "mean_result (foldl mean_update_state Mean groups) =
     div_no_nan (sum_list (concat groups)) (real (length (concat groups))) \<and>
   (concat groups = [a, b, c] \<longrightarrow>
      mean_result (foldl mean_update_state Mean groups) = (a + b + c) / 3) \<and>
   (concat groups = concat other_groups \<longrightarrow>
      mean_result (foldl mean_update_state Mean groups) =
      mean_result (foldl mean_update_state Mean other_groups)) \<and>
   (train_step lib (inputs_a, labels_a) (new_metrics s) = Inr after_a \<and>
    train_step lib (inputs_b, labels_b) after_a = Inr after_b \<and>
    train_step lib (inputs_c, labels_c) after_b = Inr after_c \<and>
    loss labels_a (call (model s) (trainable_variables (model s)) inputs_a) = Inr a \<and>
    loss labels_b (call (model after_a) (trainable_variables (model after_a)) inputs_b) =
      Inr b \<and>
    loss labels_c (call (model after_b) (trainable_variables (model after_b)) inputs_c) =
      Inr c \<longrightarrow>
      training_phase lib [(inputs_a, labels_a), (inputs_b, labels_b), (inputs_c, labels_c)]
        (new_metrics s) = Inr after_c \<and>
      train_epoch_loss_avg after_c = foldl mean_update_state Mean [[a], [b], [c]] \<and>
      mean_result (train_epoch_loss_avg after_c) = (a + b + c) / 3)"
proof (intro conjI impI)
  show "mean_result (foldl mean_update_state Mean groups) =
     div_no_nan (sum_list (concat groups)) (real (length (concat groups)))"
    by (rule mean_of_groups)
next
  assume "concat groups = [a, b, c]"
  then show "mean_result (foldl mean_update_state Mean groups) = (a + b + c) / 3"
    by (rule mean_of_three)
next
  assume "concat groups = concat other_groups"
  then show "mean_result (foldl mean_update_state Mean groups) =
      mean_result (foldl mean_update_state Mean other_groups)"
    by (simp only: mean_of_groups)
next
  assume steps: "train_step lib (inputs_a, labels_a) (new_metrics s) = Inr after_a \<and>
    train_step lib (inputs_b, labels_b) after_a = Inr after_b \<and>
    train_step lib (inputs_c, labels_c) after_b = Inr after_c \<and>
    loss labels_a (call (model s) (trainable_variables (model s)) inputs_a) = Inr a \<and>
    loss labels_b (call (model after_a) (trainable_variables (model after_a)) inputs_b) =
      Inr b \<and>
    loss labels_c (call (model after_b) (trainable_variables (model after_b)) inputs_c) =
      Inr c"
  then have after_a: "train_step lib (inputs_a, labels_a) (new_metrics s) = Inr after_a"
    and after_b: "train_step lib (inputs_b, labels_b) after_a = Inr after_b"
    and after_c: "train_step lib (inputs_c, labels_c) after_b = Inr after_c"
    and a: "loss labels_a (call (model (new_metrics s))
              (trainable_variables (model (new_metrics s))) inputs_a) = Inr a"
    and b: "loss labels_b (call (model after_a) (trainable_variables (model after_a))
              inputs_b) = Inr b"
    and c: "loss labels_c (call (model after_b) (trainable_variables (model after_b))
              inputs_c) = Inr c"
    by (simp_all add: new_metrics_def)
  from after_a after_b after_c
  show "training_phase lib [(inputs_a, labels_a), (inputs_b, labels_b), (inputs_c, labels_c)]
        (new_metrics s) = Inr after_c"
    by (simp add: training_phase_def)
  have "train_epoch_loss_avg (new_metrics s) = Mean"
    by (simp add: new_metrics_def)
  with train_step_loss [OF after_a a] train_step_loss [OF after_b b]
    train_step_loss [OF after_c c]
  show fed: "train_epoch_loss_avg after_c = foldl mean_update_state Mean [[a], [b], [c]]"
    by simp
  show "mean_result (train_epoch_loss_avg after_c) = (a + b + c) / 3"
    unfolding fed by (rule mean_of_three) simp
qed

theorem running_mean_ignores_grouping_witness:
  "mean_result (foldl mean_update_state Mean [[1], [2], [6]]) = 3 \<and>
   mean_result (foldl mean_update_state Mean [[1, 2], [], [6]]) = 3 \<and>
   mean_result (foldl mean_update_state Mean [[1], [2, 6]]) =
     mean_result (foldl mean_update_state Mean [[1, 2, 6]]) \<and>
   (\<exists>s3. training_phase toy_tf [two_samples, two_samples, two_samples]
            (new_metrics fresh_notebook) = Inr s3 \<and>
         mean_result (train_epoch_loss_avg s3) = - ln (1 / 46))"
proof -
  have one: "mean_result (foldl mean_update_state Mean [[1], [2], [6]]) = 3"
    using running_mean_ignores_grouping
      [where groups = "[[1], [2], [6]]" and a = 1 and b = 2 and c = 6,
        THEN conjunct2, THEN conjunct1, THEN mp]
    by simp
  have two: "mean_result (foldl mean_update_state Mean [[1, 2], [], [6]]) = 3"
    using running_mean_ignores_grouping
      [where groups = "[[1, 2], [], [6]]" and a = 1 and b = 2 and c = 6,
        THEN conjunct2, THEN conjunct1, THEN mp]
    by simp
  have three: "mean_result (foldl mean_update_state Mean [[1], [2, 6]]) =
     mean_result (foldl mean_update_state Mean [[1, 2, 6]])"
    using running_mean_ignores_grouping
      [where groups = "[[1], [2, 6]]" and other_groups = "[[1, 2, 6]]",
        THEN conjunct2, THEN conjunct2, THEN conjunct1, THEN mp]
    by simp
  let ?s = "new_metrics fresh_notebook"
  have model: "call (model ?s) = call uniform_model"
    by (simp add: new_metrics_def fresh_notebook_def)
  have batch_loss: "loss (snd two_samples) (call (model t) (trainable_variables (model t))
      (fst two_samples)) = Inr (- ln (1 / 46))" if "call (model t) = call uniform_model"
    for t :: "(real, nat) notebook"
    using loss_uniform by (simp add: that uniform_model_def two_samples_def)
  from train_step_returns [of ?s two_samples toy_tf] two_samples_well_formed model
  obtain s1 where s1: "train_step toy_tf two_samples ?s = Inr s1"
    by auto
  from train_step_update(2) [OF s1] model have model1: "call (model s1) = call uniform_model"
    by simp
  from train_step_returns [of s1 two_samples toy_tf] two_samples_well_formed model1
  obtain s2 where s2: "train_step toy_tf two_samples s1 = Inr s2"
    by auto
  from train_step_update(2) [OF s2] model1 have model2: "call (model s2) = call uniform_model"
    by simp
  from train_step_returns [of s2 two_samples toy_tf] two_samples_well_formed model2
  obtain s3 where s3: "train_step toy_tf two_samples s2 = Inr s3"
    by auto
  have model0: "call (model fresh_notebook) = call uniform_model"
    by (simp add: fresh_notebook_def)
  have batch: "two_samples = (fst two_samples, snd two_samples)"
    by simp
  have hyp: "train_step toy_tf (fst two_samples, snd two_samples) ?s = Inr s1 \<and>
    train_step toy_tf (fst two_samples, snd two_samples) s1 = Inr s2 \<and>
    train_step toy_tf (fst two_samples, snd two_samples) s2 = Inr s3 \<and>
    loss (snd two_samples) (call (model fresh_notebook)
      (trainable_variables (model fresh_notebook)) (fst two_samples)) = Inr (- ln (1 / 46)) \<and>
    loss (snd two_samples) (call (model s1) (trainable_variables (model s1))
      (fst two_samples)) = Inr (- ln (1 / 46)) \<and>
    loss (snd two_samples) (call (model s2) (trainable_variables (model s2))
      (fst two_samples)) = Inr (- ln (1 / 46))"
    using s1 s2 s3 batch_loss [OF model0] batch_loss [OF model1] batch_loss [OF model2]
    by (simp only: batch [symmetric] simp_thms)
  from running_mean_ignores_grouping
    [where lib = toy_tf and s = fresh_notebook
      and after_a = s1 and after_b = s2 and after_c = s3
      and inputs_a = "fst two_samples" and labels_a = "snd two_samples"
      and inputs_b = "fst two_samples" and labels_b = "snd two_samples"
      and inputs_c = "fst two_samples" and labels_c = "snd two_samples"
      and a = "- ln (1 / 46)" and b = "- ln (1 / 46)" and c = "- ln (1 / 46)",
      THEN conjunct2, THEN conjunct2, THEN conjunct2, THEN mp, OF hyp]
  have epoch: "training_phase toy_tf [two_samples, two_samples, two_samples] ?s = Inr s3 \<and>
      train_epoch_loss_avg s3 =
        foldl mean_update_state Mean [[- ln (1 / 46)], [- ln (1 / 46)], [- ln (1 / 46)]] \<and>
      mean_result (train_epoch_loss_avg s3) = (- ln (1 / 46) + - ln (1 / 46) + - ln (1 / 46)) / 3"
    unfolding prod.collapse .
  then have "mean_result (train_epoch_loss_avg s3) =
      (- ln (1 / 46) + - ln (1 / 46) + - ln (1 / 46)) / 3"
    by blast
  then have "mean_result (train_epoch_loss_avg s3) = - ln (1 / 46)"
    by simp
  with epoch one two three show ?thesis
    by blast
qed

end
